theory Spec2Isabelle
  imports Main "HOL-Library.AList" "HOL-Library.Sublist"
begin

section \<open>JavaScript primitives used by the agent runner\<close>

text \<open>
  Strings are lists of 8-bit code units. The library functions of Node and ECMAScript
  that the sources call (\<^verbatim>\<open>parseInt\<close>, \<^verbatim>\<open>String.prototype.replace\<close>, \<^verbatim>\<open>path.resolve\<close>,
  \<^verbatim>\<open>JSON.stringify\<close>, the \<^verbatim>\<open>fs\<close> calls) are modelled from their language
  specification; code units above 255 are outside the model.
\<close>

definition is_js_whitespace :: "char \<Rightarrow> bool" where
  "is_js_whitespace c = (of_char c \<in> set [9, 10, 11, 12, 13, 32, 160 :: nat])"

definition is_digit :: "char \<Rightarrow> bool" where
  "is_digit c = (48 \<le> (of_char c :: nat) \<and> (of_char c :: nat) \<le> 57)"

definition digit_value :: "char \<Rightarrow> nat" where
  "digit_value c = of_char c - 48"

definition digits_value :: "string \<Rightarrow> nat" where
  "digits_value ds = foldl (\<lambda>acc c. 10 * acc + digit_value c) 0 ds"

text \<open>
  \<^verbatim>\<open>parseInt(s, 10)\<close>: leading white space is dropped, one sign is read, then the
  longest run of decimal digits; no digit gives \<^verbatim>\<open>NaN\<close> (here \<open>None\<close>). Whatever follows
  the digits is ignored. The sign of the result is all the callers look at, so the
  rounding to a double is left out.
\<close>

definition parseInt10 :: "string \<Rightarrow> int option" where
  "parseInt10 s =
     (let S = dropWhile is_js_whitespace s;
          neg = (case S of [] \<Rightarrow> False | c # _ \<Rightarrow> c = CHR ''-'');
          S' = (case S of [] \<Rightarrow> []
                | c # cs \<Rightarrow> if c = CHR ''+'' \<or> c = CHR ''-'' then cs else S);
          Z = takeWhile is_digit S'
      in if Z = [] then None
         else Some ((if neg then - 1 else 1) * int (digits_value Z)))"

text \<open>\<^verbatim>\<open>(x as string) || d\<close>: a missing or empty string is falsy and gives the default.\<close>

definition or_default :: "string option \<Rightarrow> string \<Rightarrow> string" where
  "or_default x d = (case x of None \<Rightarrow> d | Some s \<Rightarrow> if s = [] then d else s)"

text \<open>A template literal renders a number in decimal.\<close>

definition digit_char :: "nat \<Rightarrow> char" where
  "digit_char d = char_of (48 + d)"

function show_nat :: "nat \<Rightarrow> string" where
  "show_nat n = (if n < 10 then [digit_char n] else show_nat (n div 10) @ [digit_char (n mod 10)])"
  by pat_completeness auto
termination
  by (relation "measure id") auto

declare show_nat.simps [simp del]

text \<open>\<^verbatim>\<open>s.split(sep)\<close> for a one-character separator: always at least one piece.\<close>

fun split_on :: "char \<Rightarrow> string \<Rightarrow> string list" where
  "split_on sep [] = [[]]"
| "split_on sep (c # cs) =
     (if c = sep then [] # split_on sep cs
      else (case split_on sep cs of [] \<Rightarrow> [[c]] | p # ps \<Rightarrow> (c # p) # ps))"

fun join_with :: "string \<Rightarrow> string list \<Rightarrow> string" where
  "join_with sep [] = []"
| "join_with sep [p] = p"
| "join_with sep (p # q # ps) = p @ sep @ join_with sep (q # ps)"

subsection \<open>POSIX paths\<close>

text \<open>
  Node's \<^verbatim>\<open>normalizeString\<close>: empty segments and \<^verbatim>\<open>.\<close> are dropped, \<^verbatim>\<open>..\<close> removes the
  segment before it; at the top it is dropped (absolute paths) or kept (relative ones).
  The accumulator holds the segments kept so far, last one first.
\<close>

fun normalize_segments :: "bool \<Rightarrow> string list \<Rightarrow> string list \<Rightarrow> string list" where
  "normalize_segments up acc [] = rev acc"
| "normalize_segments up acc (s # ss) =
     (if s = [] \<or> s = ''.'' then normalize_segments up acc ss
      else if s = ''..'' then
        (case acc of
           [] \<Rightarrow> normalize_segments up (if up then [''..''] else []) ss
         | a # as \<Rightarrow>
             if a = ''..'' then normalize_segments up (if up then ''..'' # acc else acc) ss
             else normalize_segments up as ss)
      else normalize_segments up (s # acc) ss)"

definition normalizeString :: "string \<Rightarrow> bool \<Rightarrow> string" where
  "normalizeString p up = join_with ''/'' (normalize_segments up [] (split_on CHR ''/'' p))"

definition is_absolute :: "string \<Rightarrow> bool" where
  "is_absolute p = (case p of [] \<Rightarrow> False | c # _ \<Rightarrow> c = CHR ''/'')"

text \<open>\<^verbatim>\<open>path.normalize\<close> and \<^verbatim>\<open>path.join\<close> of two arguments.\<close>

definition path_normalize :: "string \<Rightarrow> string" where
  "path_normalize p =
     (if p = [] then ''.''
      else let trailing = (last p = CHR ''/'');
               n = normalizeString p (\<not> is_absolute p)
           in if n = [] then (if is_absolute p then ''/'' else if trailing then ''./'' else ''.'')
              else (if is_absolute p then ''/'' else []) @ n @ (if trailing then ''/'' else []))"

definition path_join :: "string \<Rightarrow> string \<Rightarrow> string" where
  "path_join a b =
     (if a = [] \<and> b = [] then ''.''
      else if a = [] then path_normalize b
      else if b = [] then path_normalize a
      else path_normalize (a @ ''/'' @ b))"

text \<open>
  \<^verbatim>\<open>path.resolve(base, p)\<close> for an absolute \<open>base\<close>: an absolute \<open>p\<close> replaces the base,
  an empty one is skipped, the result is normalised and has no trailing slash.
\<close>

definition path_resolve :: "string \<Rightarrow> string \<Rightarrow> string" where
  "path_resolve base p =
     ''/'' @ normalizeString
       (if p = [] then base @ ''/''
        else if is_absolute p then p @ ''/''
        else base @ ''/'' @ p @ ''/'') False"

subsection \<open>JSON.stringify of the flat payload objects\<close>

datatype jval = JString string | JBool bool | JUndefined

type_synonym jobject = "(string \<times> jval) list"

definition hex_digit :: "nat \<Rightarrow> char" where
  "hex_digit d = (if d < 10 then char_of (48 + d) else char_of (87 + d))"

definition quote_char :: "char \<Rightarrow> string" where
  "quote_char c =
     (let n = (of_char c :: nat) in
      if n = 34 then [CHR 0x5C, CHR 0x22]
      else if n = 92 then [CHR 0x5C, CHR 0x5C]
      else if n = 8 then [CHR 0x5C, CHR ''b'']
      else if n = 12 then [CHR 0x5C, CHR ''f'']
      else if n = 10 then [CHR 0x5C, CHR ''n'']
      else if n = 13 then [CHR 0x5C, CHR ''r'']
      else if n = 9 then [CHR 0x5C, CHR ''t'']
      else if n < 32 then [CHR 0x5C, CHR ''u'', CHR ''0'', CHR ''0'', hex_digit (n div 16), hex_digit (n mod 16)]
      else [c])"

definition quote_json :: "string \<Rightarrow> string" where
  "quote_json s = [CHR 0x22] @ concat (map quote_char s) @ [CHR 0x22]"

fun stringify_val :: "jval \<Rightarrow> string" where
  "stringify_val (JString s) = quote_json s"
| "stringify_val (JBool b) = (if b then ''true'' else ''false'')"
| "stringify_val JUndefined = []"

text \<open>
  \<^verbatim>\<open>JSON.stringify(data, null, 2)\<close>: members whose value is \<^verbatim>\<open>undefined\<close> are left out,
  the others are written one per line, indented by two spaces.
\<close>

definition JSON_stringify :: "jobject \<Rightarrow> string" where
  "JSON_stringify data =
     (let members = filter (\<lambda>(k, v). v \<noteq> JUndefined) data in
      if members = [] then ''{}''
      else ''{'' @ [CHR 0x0A]
           @ join_with ('','' @ [CHR 0x0A])
               (map (\<lambda>(k, v). ''  '' @ quote_json k @ '': '' @ stringify_val v) members)
           @ [CHR 0x0A] @ ''}'')"

section \<open>The file system\<close>

text \<open>
  The files of the container, as an association list from absolute path to content, in
  directory order. Directories are implicit, so \<^verbatim>\<open>mkdirSync(dir, {recursive: true})\<close>
  changes nothing. Failures of the operating system (a full disk, permissions) are
  outside the model.
\<close>

type_synonym fs = "(string \<times> string) list"

definition readFileSync :: "fs \<Rightarrow> string \<Rightarrow> string option" where
  "readFileSync fs p = map_of fs p"

definition writeFileSync :: "fs \<Rightarrow> string \<Rightarrow> string \<Rightarrow> fs" where
  "writeFileSync fs p content = AList.update p content fs"

text \<open>\<^verbatim>\<open>renameSync\<close> replaces the target. A missing source is ENOENT in Node; the writer
  below always renames a file it has just written.\<close>

definition renameSync :: "fs \<Rightarrow> string \<Rightarrow> string \<Rightarrow> fs" where
  "renameSync fs a b =
     (case map_of fs a of None \<Rightarrow> fs | Some c \<Rightarrow> AList.update b c (AList.delete a fs))"

section \<open>The IPC emitter (ipc-mcp)\<close>

definition IPC_DIR :: string where "IPC_DIR = ''/workspace/ipc''"
definition MESSAGES_DIR :: string where "MESSAGES_DIR = path_join IPC_DIR ''messages''"
definition TASKS_DIR :: string where "TASKS_DIR = path_join IPC_DIR ''tasks''"

record IpcMcpContext =
  chatJid :: string
  groupFolder :: string
  isMain :: bool

text \<open>What the clock and the random generator give one call: \<^verbatim>\<open>Date.now()\<close>,
  \<^verbatim>\<open>Math.random().toString(36).slice(2, 8)\<close> and \<^verbatim>\<open>new Date().toISOString()\<close>.\<close>

record env =
  now_ms :: nat
  rand_suffix :: string
  iso_now :: string

definition ipc_filename :: "env \<Rightarrow> string" where
  "ipc_filename e = show_nat (now_ms e) @ ''-'' @ rand_suffix e @ ''.json''"

definition writeIpcFile :: "env \<Rightarrow> string \<Rightarrow> jobject \<Rightarrow> fs \<Rightarrow> string \<times> fs" where
  "writeIpcFile e dir data fs =
     (let filename = ipc_filename e;
          filepath = path_join dir filename;
          tempPath = filepath @ ''.tmp'';
          fs1 = writeFileSync fs tempPath (JSON_stringify data);
          fs2 = renameSync fs1 tempPath filepath
      in (filename, fs2))"

text \<open>
  The two parsers of other packages that the validation calls,
  \<^verbatim>\<open>CronExpressionParser.parse\<close> and \<^verbatim>\<open>new Date(s)\<close>, are parameters: each says whether
  its argument parses.
\<close>

record parsers =
  cron_parses :: "string \<Rightarrow> bool"
  date_parses :: "string \<Rightarrow> bool"

text \<open>\<^verbatim>\<open>isNaN(ms) || ms <= 0\<close> for \<^verbatim>\<open>ms = parseInt(v, 10)\<close>.\<close>

definition interval_rejected :: "string \<Rightarrow> bool" where
  "interval_rejected v = (case parseInt10 v of None \<Rightarrow> True | Some ms \<Rightarrow> ms \<le> 0)"

subsection \<open>schedule\_task of createIpcMcp\<close>

datatype tool_result = ToolText string | ToolError string

record mcp_schedule_args =
  m_prompt :: string
  m_schedule_type :: string
  m_schedule_value :: string
  m_context_mode :: "string option"
  m_target_group_jid :: "string option"

text \<open>A value between double quotes, as the messages show it.\<close>

definition in_quotes :: "string \<Rightarrow> string" where
  "in_quotes s = [CHR 0x22] @ s @ [CHR 0x22]"

definition mcp_schedule_validate :: "parsers \<Rightarrow> mcp_schedule_args \<Rightarrow> string option" where
  "mcp_schedule_validate ps args =
     (if m_schedule_type args = ''cron'' then
        (if cron_parses ps (m_schedule_value args) then None
         else Some (''Invalid cron: '' @ in_quotes (m_schedule_value args)
                @ ''. Use format like '' @ in_quotes ''0 9 * * *'' @ '' (daily 9am) or ''
                @ in_quotes ''*/5 * * * *'' @ '' (every 5 min).''))
      else if m_schedule_type args = ''interval'' then
        (if interval_rejected (m_schedule_value args) then
           Some (''Invalid interval: '' @ in_quotes (m_schedule_value args)
                @ ''. Must be positive milliseconds (e.g., '' @ in_quotes ''300000'' @ '' for 5 min).'')
         else None)
      else if m_schedule_type args = ''once'' then
        (if date_parses ps (m_schedule_value args) then None
         else Some (''Invalid timestamp: '' @ in_quotes (m_schedule_value args)
                @ ''. Use ISO 8601 format like '' @ in_quotes ''2026-02-01T15:30:00.000Z'' @ ''.''))
      else None)"

text \<open>\<^verbatim>\<open>isMain && args.target_group_jid ? args.target_group_jid : chatJid\<close>: a target that
  is missing or empty is falsy.\<close>

definition mcp_schedule_data :: "IpcMcpContext \<Rightarrow> env \<Rightarrow> mcp_schedule_args \<Rightarrow> jobject" where
  "mcp_schedule_data ctx e args =
     (let targetJid =
            (case m_target_group_jid args of
               None \<Rightarrow> chatJid ctx
             | Some target \<Rightarrow> if isMain ctx \<and> target \<noteq> [] then target else chatJid ctx)
      in [(''type'', JString ''schedule_task''),
          (''prompt'', JString (m_prompt args)),
          (''schedule_type'', JString (m_schedule_type args)),
          (''schedule_value'', JString (m_schedule_value args)),
          (''context_mode'', JString (or_default (m_context_mode args) ''group'')),
          (''targetJid'', JString targetJid),
          (''createdBy'', JString (groupFolder ctx)),
          (''timestamp'', JString (iso_now e))])"

definition mcp_schedule_task ::
  "parsers \<Rightarrow> IpcMcpContext \<Rightarrow> env \<Rightarrow> mcp_schedule_args \<Rightarrow> fs \<Rightarrow> tool_result \<times> fs" where
  "mcp_schedule_task ps ctx e args fs =
     (case mcp_schedule_validate ps args of
        Some err \<Rightarrow> (ToolError err, fs)
      | None \<Rightarrow>
          (case writeIpcFile e TASKS_DIR (mcp_schedule_data ctx e args) fs of
             (filename, fs') \<Rightarrow>
               (ToolText (''Task scheduled ('' @ filename @ ''): '' @ m_schedule_type args
                          @ '' - '' @ m_schedule_value args), fs')))"

subsection \<open>schedule\_task of getIpcToolsForOpenAI\<close>

text \<open>The arguments are what \<^verbatim>\<open>JSON.parse\<close> gave: each may be missing. The executor
  casts them to strings, so the model takes strings.\<close>

record oa_schedule_args =
  a_prompt :: "string option"
  a_schedule_type :: "string option"
  a_schedule_value :: "string option"
  a_context_mode :: "string option"
  a_target_group :: "string option"

definition oa_schedule_type :: "oa_schedule_args \<Rightarrow> string" where
  "oa_schedule_type args = or_default (a_schedule_type args) ''cron''"

definition oa_schedule_value :: "oa_schedule_args \<Rightarrow> string" where
  "oa_schedule_value args = or_default (a_schedule_value args) []"

definition oa_schedule_validate :: "parsers \<Rightarrow> oa_schedule_args \<Rightarrow> string option" where
  "oa_schedule_validate ps args =
     (let schedule_type = oa_schedule_type args; schedule_value = oa_schedule_value args in
      if schedule_type = ''cron'' then
        (if cron_parses ps schedule_value then None
         else Some (''Invalid cron: '' @ in_quotes schedule_value @ ''. Use format like ''
                @ in_quotes ''0 9 * * *'' @ '' or '' @ in_quotes ''*/5 * * * *'' @ ''.''))
      else if schedule_type = ''interval'' then
        (if interval_rejected schedule_value then
           Some (''Invalid interval: '' @ in_quotes schedule_value @ ''. Must be positive milliseconds.'')
         else None)
      else if schedule_type = ''once'' then
        (if date_parses ps schedule_value then None
         else Some (''Invalid timestamp: '' @ in_quotes schedule_value @ ''. Use ISO 8601.''))
      else None)"

definition opt_string :: "string option \<Rightarrow> jval" where
  "opt_string x = (case x of None \<Rightarrow> JUndefined | Some s \<Rightarrow> JString s)"

definition oa_schedule_data :: "IpcMcpContext \<Rightarrow> env \<Rightarrow> oa_schedule_args \<Rightarrow> jobject" where
  "oa_schedule_data ctx e args =
     (let targetGroup =
            (case a_target_group args of
               None \<Rightarrow> groupFolder ctx
             | Some target \<Rightarrow> if isMain ctx \<and> target \<noteq> [] then target else groupFolder ctx)
      in [(''type'', JString ''schedule_task''),
          (''prompt'', opt_string (a_prompt args)),
          (''schedule_type'', JString (oa_schedule_type args)),
          (''schedule_value'', JString (oa_schedule_value args)),
          (''context_mode'', JString (or_default (a_context_mode args) ''group'')),
          (''groupFolder'', JString targetGroup),
          (''chatJid'', JString (chatJid ctx)),
          (''createdBy'', JString (groupFolder ctx)),
          (''timestamp'', JString (iso_now e))])"

definition oa_schedule_task ::
  "parsers \<Rightarrow> IpcMcpContext \<Rightarrow> env \<Rightarrow> oa_schedule_args \<Rightarrow> fs \<Rightarrow> string \<times> fs" where
  "oa_schedule_task ps ctx e args fs =
     (case oa_schedule_validate ps args of
        Some err \<Rightarrow> (err, fs)
      | None \<Rightarrow>
          (case writeIpcFile e TASKS_DIR (oa_schedule_data ctx e args) fs of
             (filename, fs') \<Rightarrow>
               (''Task scheduled ('' @ filename @ ''): '' @ oa_schedule_type args
                @ '' - '' @ oa_schedule_value args, fs')))"

section \<open>The built-in tools (builtin-tools)\<close>

definition WORKSPACE_GROUP :: string where "WORKSPACE_GROUP = ''/workspace/group''"

text \<open>A thrown \<^verbatim>\<open>Error\<close> is \<open>Inl\<close> of its message.\<close>

definition resolvePath :: "string \<Rightarrow> string + string" where
  "resolvePath relativePath =
     (let resolved = path_resolve WORKSPACE_GROUP relativePath in
      if \<not> prefix WORKSPACE_GROUP resolved
      then Inl (''Path '' @ relativePath @ '' resolves outside /workspace/group'')
      else Inr resolved)"

text \<open>\<^verbatim>\<open>String(x ?? '')\<close> on an argument that is a string when present, and the
  argument as a template literal prints it.\<close>

definition str_arg :: "string option \<Rightarrow> string" where
  "str_arg x = (case x of None \<Rightarrow> [] | Some s \<Rightarrow> s)"

definition shown_arg :: "string option \<Rightarrow> string" where
  "shown_arg x = (case x of None \<Rightarrow> ''undefined'' | Some s \<Rightarrow> s)"

definition enoent :: "string \<Rightarrow> string" where
  "enoent p = ''ENOENT: no such file or directory, open '' @ [CHR 0x27] @ p @ [CHR 0x27]"

text \<open>
  An executor takes the file system and gives what it returns or throws, and the file
  system it leaves. \<^verbatim>\<open>resolvePath\<close> is called outside the \<^verbatim>\<open>try\<close>, so its error is
  thrown to the caller; a failed read is caught and returned as text.
\<close>

definition Read_execute :: "string option \<Rightarrow> fs \<Rightarrow> (string + string) \<times> fs" where
  "Read_execute path fs =
     (case resolvePath (str_arg path) of
        Inl err \<Rightarrow> (Inl err, fs)
      | Inr p \<Rightarrow>
          (case readFileSync fs p of
             Some content \<Rightarrow> (Inr content, fs)
           | None \<Rightarrow> (Inr (''Error: '' @ enoent p), fs)))"

definition Write_execute :: "string option \<Rightarrow> string option \<Rightarrow> fs \<Rightarrow> (string + string) \<times> fs" where
  "Write_execute path content fs =
     (case resolvePath (str_arg path) of
        Inl err \<Rightarrow> (Inl err, fs)
      | Inr p \<Rightarrow> (Inr (''Wrote '' @ shown_arg path), writeFileSync fs p (str_arg content)))"

text \<open>\<^verbatim>\<open>content.indexOf(pat)\<close>; \<^verbatim>\<open>content.includes(pat)\<close> is whether it finds one.\<close>

fun index_of :: "string \<Rightarrow> string \<Rightarrow> nat option" where
  "index_of [] pat = (if pat = [] then Some 0 else None)"
| "index_of (c # cs) pat =
     (if prefix pat (c # cs) then Some 0 else map_option Suc (index_of cs pat))"

definition js_includes :: "string \<Rightarrow> string \<Rightarrow> bool" where
  "js_includes content pat = (index_of content pat \<noteq> None)"

text \<open>
  \<^verbatim>\<open>GetSubstitution\<close> of ECMAScript for a string pattern (no capture groups): in the
  replacement text \<^verbatim>\<open>$$\<close> stands for a dollar sign, \<^verbatim>\<open>$&\<close> for the matched text,
  \<^verbatim>\<open>$`\<close> for the text before the match and \<^verbatim>\<open>$'\<close> for the text after it; any other
  character, a dollar sign included, stands for itself.
\<close>

fun get_substitution :: "string \<Rightarrow> string \<Rightarrow> string \<Rightarrow> string \<Rightarrow> string" where
  "get_substitution matched preceding following [] = []"
| "get_substitution matched preceding following [c] = [c]"
| "get_substitution matched preceding following (c # d # r) =
     (if c = CHR ''$'' then
        (if d = CHR ''$'' then CHR ''$'' # get_substitution matched preceding following r
         else if d = CHR ''&'' then matched @ get_substitution matched preceding following r
         else if d = CHR 0x60 then preceding @ get_substitution matched preceding following r
         else if d = CHR 0x27 then following @ get_substitution matched preceding following r
         else c # get_substitution matched preceding following (d # r))
      else c # get_substitution matched preceding following (d # r))"

text \<open>\<^verbatim>\<open>content.replace(oldStr, newStr)\<close> with two strings: the first occurrence only.\<close>

definition js_replace :: "string \<Rightarrow> string \<Rightarrow> string \<Rightarrow> string" where
  "js_replace content oldStr newStr =
     (case index_of content oldStr of
        None \<Rightarrow> content
      | Some pos \<Rightarrow>
          (let preceding = take pos content;
               following = drop (pos + length oldStr) content
           in preceding @ get_substitution oldStr preceding following newStr @ following))"

definition Edit_execute ::
  "string option \<Rightarrow> string option \<Rightarrow> string option \<Rightarrow> fs \<Rightarrow> (string + string) \<times> fs" where
  "Edit_execute path old_string new_string fs =
     (case resolvePath (str_arg path) of
        Inl err \<Rightarrow> (Inl err, fs)
      | Inr p \<Rightarrow>
          (let oldStr = str_arg old_string; newStr = str_arg new_string in
           case readFileSync fs p of
             None \<Rightarrow> (Inr (''Error: '' @ enoent p), fs)
           | Some content \<Rightarrow>
               if \<not> js_includes content oldStr then (Inr ''Error: old_string not found in file'', fs)
               else (Inr (''Edited '' @ shown_arg path),
                     writeFileSync fs p (js_replace content oldStr newStr))))"

subsection \<open>Regular expressions\<close>

text \<open>
  The fragment of JavaScript's regular expressions that the glob translation produces
  and that plain-text search patterns use: an optional \<^verbatim>\<open>^\<close>, then literal characters,
  \<^verbatim>\<open>.\<close> and \<^verbatim>\<open>[^/]\<close>, each with an optional \<^verbatim>\<open>*\<close>, then an optional \<^verbatim>\<open>$\<close>. A \<^verbatim>\<open>*\<close>
  with nothing to repeat is the syntax error of \<^verbatim>\<open>new RegExp\<close>; any other
  metacharacter is outside the fragment.
\<close>

datatype atom = Lit char | AnyChar | NotSlash

datatype item = One atom | Star atom

record regex =
  anchor_start :: bool
  items :: "item list"
  anchor_end :: bool

datatype 'a compiled = Compiled 'a | SyntaxError | Unsupported

definition is_meta :: "char \<Rightarrow> bool" where
  "is_meta c = (c \<in> set [CHR 0x5C, CHR ''^'', CHR ''$'', CHR ''.'', CHR ''|'', CHR ''?'', CHR ''*'',
                          CHR ''+'', CHR ''('', CHR '')'', CHR ''['', CHR '']'', CHR ''{'', CHR ''}''])"

definition parse_atom :: "string \<Rightarrow> (atom \<times> string) compiled" where
  "parse_atom s =
     (case s of
        [] \<Rightarrow> Unsupported
      | c # cs \<Rightarrow>
          if c = CHR ''.'' then Compiled (AnyChar, cs)
          else if take 4 s = ''[^/]'' then Compiled (NotSlash, drop 4 s)
          else if c = CHR ''*'' then SyntaxError
          else if is_meta c then Unsupported
          else Compiled (Lit c, cs))"

fun parse_items :: "nat \<Rightarrow> string \<Rightarrow> item list compiled" where
  "parse_items 0 s = (if s = [] then Compiled [] else Unsupported)"
| "parse_items (Suc n) s =
     (if s = [] then Compiled []
      else case parse_atom s of
             SyntaxError \<Rightarrow> SyntaxError
           | Unsupported \<Rightarrow> Unsupported
           | Compiled (a, r) \<Rightarrow>
               (let starred = (case r of [] \<Rightarrow> False | c # _ \<Rightarrow> c = CHR ''*'');
                    r' = (if starred then tl r else r)
                in case parse_items n r' of
                     SyntaxError \<Rightarrow> SyntaxError
                   | Unsupported \<Rightarrow> Unsupported
                   | Compiled its \<Rightarrow> Compiled ((if starred then Star a else One a) # its)))"

definition RegExp :: "string \<Rightarrow> regex compiled" where
  "RegExp src =
     (let a1 = (case src of [] \<Rightarrow> False | c # _ \<Rightarrow> c = CHR ''^'');
          s1 = (if a1 then tl src else src);
          a2 = (s1 \<noteq> [] \<and> last s1 = CHR ''$'');
          s2 = (if a2 then butlast s1 else s1)
      in case parse_items (length s2) s2 of
           SyntaxError \<Rightarrow> SyntaxError
         | Unsupported \<Rightarrow> Unsupported
         | Compiled its \<Rightarrow> Compiled \<lparr>anchor_start = a1, items = its, anchor_end = a2\<rparr>)"

fun atom_matches :: "atom \<Rightarrow> char \<Rightarrow> bool" where
  "atom_matches (Lit l) c = (c = l)"
| "atom_matches AnyChar c = (c \<noteq> CHR 0x0A \<and> c \<noteq> CHR 0x0D)"
| "atom_matches NotSlash c = (c \<noteq> CHR ''/'')"

text \<open>The length of the match of the items at the head of the text, the star greedy
  and backtracking, as the engine tries them.\<close>

fun match_items :: "bool \<Rightarrow> item list \<Rightarrow> string \<Rightarrow> nat option" where
  "match_items at_end [] s = (if at_end \<and> s \<noteq> [] then None else Some 0)"
| "match_items at_end (One a # its) s =
     (case s of
        [] \<Rightarrow> None
      | c # cs \<Rightarrow> if atom_matches a c then map_option Suc (match_items at_end its cs) else None)"
| "match_items at_end (Star a # its) s =
     (case s of
        [] \<Rightarrow> match_items at_end its s
      | c # cs \<Rightarrow>
          if atom_matches a c then
            (case match_items at_end (Star a # its) cs of
               Some n \<Rightarrow> Some (Suc n)
             | None \<Rightarrow> match_items at_end its s)
          else match_items at_end its s)"

definition match_at :: "regex \<Rightarrow> string \<Rightarrow> nat \<Rightarrow> nat option" where
  "match_at re s i =
     (if anchor_start re \<and> i \<noteq> 0 then None
      else map_option (\<lambda>n. i + n) (match_items (anchor_end re) (items re) (drop i s)))"

text \<open>The end of the leftmost match that starts at \<open>i\<close> or later; \<open>k\<close> start positions
  are left to try.\<close>

fun search_from :: "regex \<Rightarrow> string \<Rightarrow> nat \<Rightarrow> nat \<Rightarrow> nat option" where
  "search_from re s i 0 = None"
| "search_from re s i (Suc k) =
     (case match_at re s i of Some e \<Rightarrow> Some e | None \<Rightarrow> search_from re s (Suc i) k)"

text \<open>\<^verbatim>\<open>re.test(s)\<close> of a regular expression without the \<^verbatim>\<open>g\<close> flag.\<close>

definition regex_test :: "regex \<Rightarrow> string \<Rightarrow> bool" where
  "regex_test re s = (search_from re s 0 (Suc (length s)) \<noteq> None)"

text \<open>
  \<^verbatim>\<open>re.test(s)\<close> of a regular expression with the \<^verbatim>\<open>g\<close> flag: the search starts at
  \<^verbatim>\<open>re.lastIndex\<close>, a match moves \<^verbatim>\<open>lastIndex\<close> to its end, a failure resets it to 0.
  The result is the answer and the new \<^verbatim>\<open>lastIndex\<close>.
\<close>

definition regex_test_g :: "regex \<Rightarrow> string \<Rightarrow> nat \<Rightarrow> bool \<times> nat" where
  "regex_test_g re s lastIndex =
     (if lastIndex > length s then (False, 0)
      else case search_from re s lastIndex (Suc (length s - lastIndex)) of
             None \<Rightarrow> (False, 0)
           | Some e \<Rightarrow> (True, e))"

subsection \<open>walkDir, simpleGlob and Grep\<close>

text \<open>The files at or below \<open>dir\<close>, in directory order.\<close>

definition walkDir :: "fs \<Rightarrow> string \<Rightarrow> string list" where
  "walkDir fs dir =
     (if map_of fs dir \<noteq> None then [dir]
      else map fst (filter (\<lambda>(p, c). prefix (dir @ ''/'') p) fs))"

definition js_trim :: "string \<Rightarrow> string" where
  "js_trim s = rev (dropWhile is_js_whitespace (rev (dropWhile is_js_whitespace s)))"

text \<open>\<^verbatim>\<open>s.replace(/x/g, by)\<close> for a literal \<open>x\<close>: every occurrence, left to right.\<close>

fun replace_all :: "string \<Rightarrow> string \<Rightarrow> string \<Rightarrow> string" where
  "replace_all x by [] = []"
| "replace_all x by (c # cs) =
     (if x \<noteq> [] \<and> prefix x (c # cs) then by @ replace_all x by (drop (length x - 1) cs)
      else c # replace_all x by cs)"

definition glob_segment :: "string \<Rightarrow> string" where
  "glob_segment p = replace_all ''?'' ''.'' (replace_all ''*'' ''[^/]*'' (replace_all ''**'' ''.*'' p))"

definition glob_regex_source :: "string \<Rightarrow> string" where
  "glob_regex_source normalized =
     ''^'' @ join_with ''/'' (map glob_segment (split_on CHR ''/'' normalized)) @ ''$''"

text \<open>\<^verbatim>\<open>path.relative(base, f)\<close> for a file at or below \<open>base\<close>.\<close>

definition path_relative :: "string \<Rightarrow> string \<Rightarrow> string" where
  "path_relative base f = (if prefix (base @ ''/'') f then drop (length base + 1) f else [])"

text \<open>\<open>None\<close>: the pattern gives a regular expression outside the fragment above.\<close>

definition simpleGlob :: "fs \<Rightarrow> string \<Rightarrow> string \<Rightarrow> string list option" where
  "simpleGlob fs pattern baseDir =
     (let allFiles = walkDir fs baseDir;
          normalized = (if js_trim pattern = [] then ''*'' else js_trim pattern)
      in if normalized = ''**'' \<or> suffix ''/**'' normalized then Some allFiles
         else case RegExp (glob_regex_source normalized) of
                SyntaxError \<Rightarrow> Some allFiles
              | Unsupported \<Rightarrow> None
              | Compiled re \<Rightarrow> Some (filter (\<lambda>f. regex_test re (path_relative baseDir f)) allFiles))"

text \<open>The \<^verbatim>\<open>forEach\<close> over the lines of one file: \<open>i\<close> is the index of the first line
  left, the regular expression's \<^verbatim>\<open>lastIndex\<close> is threaded through.\<close>

fun grep_lines :: "regex \<Rightarrow> string \<Rightarrow> nat \<Rightarrow> string list \<Rightarrow> nat \<Rightarrow> string list \<times> nat" where
  "grep_lines re rel i [] lastIndex = ([], lastIndex)"
| "grep_lines re rel i (line # ls) lastIndex =
     (case regex_test_g re line lastIndex of
        (hit, lastIndex') \<Rightarrow>
          (case grep_lines re rel (Suc i) ls lastIndex' of
             (out, lastIndex'') \<Rightarrow>
               ((if hit then [rel @ '':'' @ show_nat (i + 1) @ '': '' @ js_trim line] else []) @ out,
                lastIndex'')))"

text \<open>The loop over the files: the same regular expression object serves all of them.\<close>

fun grep_files :: "regex \<Rightarrow> fs \<Rightarrow> string list \<Rightarrow> nat \<Rightarrow> string list" where
  "grep_files re fs [] lastIndex = []"
| "grep_files re fs (f # files) lastIndex =
     (case readFileSync fs f of
        None \<Rightarrow> grep_files re fs files lastIndex
      | Some content \<Rightarrow>
          (case grep_lines re (path_relative WORKSPACE_GROUP f) 0 (split_on CHR 0x0A content) lastIndex of
             (out, lastIndex') \<Rightarrow> out @ grep_files re fs files lastIndex'))"

definition Grep_execute :: "string option \<Rightarrow> string option \<Rightarrow> fs \<Rightarrow> string option" where
  "Grep_execute pattern path fs =
     (let pat = str_arg pattern;
          pathArg = (case path of None \<Rightarrow> ''**'' | Some p \<Rightarrow> p)
      in case RegExp pat of
           SyntaxError \<Rightarrow>
             Some (''Error: Invalid regular expression: /'' @ pat @ ''/g: Nothing to repeat'')
         | Unsupported \<Rightarrow> None
         | Compiled re \<Rightarrow>
             (case (if pathArg = ''**'' then simpleGlob fs ''**/*'' WORKSPACE_GROUP
                    else simpleGlob fs pathArg WORKSPACE_GROUP) of
                None \<Rightarrow> None
              | Some files \<Rightarrow>
                  (let lines = grep_files re fs files 0 in
                   Some (if lines \<noteq> [] then join_with [CHR 0x0A] lines else ''(no matches)''))))"

section \<open>The atomic writer, step by step\<close>

text \<open>
  \<^verbatim>\<open>writeFileSync\<close> is not atomic, which is why \<^verbatim>\<open>writeIpcFile\<close> writes a staging file
  and renames it: the file is opened (created or truncated to empty), the content is
  written in one or more chunks, and another process may list the directory between any
  two of these steps. The steps of one \<^verbatim>\<open>writeIpcFile\<close> call:
\<close>

datatype fs_op = OpOpen string | OpAppend string string | OpRename string string

fun apply_op :: "fs \<Rightarrow> fs_op \<Rightarrow> fs" where
  "apply_op fs (OpOpen p) = AList.update p [] fs"
| "apply_op fs (OpAppend p chunk) =
     AList.update p ((case map_of fs p of None \<Rightarrow> [] | Some c \<Rightarrow> c) @ chunk) fs"
| "apply_op fs (OpRename a b) = renameSync fs a b"

definition run_ops :: "fs \<Rightarrow> fs_op list \<Rightarrow> fs" where
  "run_ops fs ops = foldl apply_op fs ops"

definition writeFileSync_ops :: "string \<Rightarrow> string list \<Rightarrow> fs_op list" where
  "writeFileSync_ops p chunks = OpOpen p # map (OpAppend p) chunks"

text \<open>\<open>chunks\<close>: the serialised payload, cut as the operating system happens to write it.\<close>

definition writeIpcFile_ops :: "env \<Rightarrow> string \<Rightarrow> string list \<Rightarrow> fs_op list" where
  "writeIpcFile_ops e dir chunks =
     (let filepath = path_join dir (ipc_filename e);
          tempPath = filepath @ ''.tmp''
      in writeFileSync_ops tempPath chunks @ [OpRename tempPath filepath])"

text \<open>\<^verbatim>\<open>path.dirname\<close> and \<^verbatim>\<open>path.basename\<close> of a normalised absolute path, and the
  names \<^verbatim>\<open>readdirSync(dir)\<close> lists.\<close>

definition path_dirname :: "string \<Rightarrow> string" where
  "path_dirname p = rev (tl (dropWhile (\<lambda>c. c \<noteq> CHR ''/'') (rev p)))"

definition path_basename :: "string \<Rightarrow> string" where
  "path_basename p = rev (takeWhile (\<lambda>c. c \<noteq> CHR ''/'') (rev p))"

definition readdirSync :: "fs \<Rightarrow> string \<Rightarrow> string list" where
  "readdirSync fs dir = map path_basename (filter (\<lambda>p. path_dirname p = dir) (map fst fs))"

subsection \<open>What a reader of the directory can parse\<close>

text \<open>A recogniser of JSON texts (RFC 8259), as \<^verbatim>\<open>JSON.parse\<close> accepts them. Each
  function gives the text left after what it read.\<close>

definition json_ws :: "char \<Rightarrow> bool" where
  "json_ws c = (c \<in> set [CHR 0x20, CHR 0x09, CHR 0x0A, CHR 0x0D])"

definition is_hex :: "char \<Rightarrow> bool" where
  "is_hex c = (is_digit c \<or> c \<in> set ''abcdefABCDEF'')"

fun json_string_rest :: "nat \<Rightarrow> string \<Rightarrow> string option" where
  "json_string_rest 0 s = None"
| "json_string_rest (Suc n) s =
     (case s of
        [] \<Rightarrow> None
      | c # cs \<Rightarrow>
          if c = CHR 0x22 then Some cs
          else if c = CHR 0x5C then
            (case cs of
               [] \<Rightarrow> None
             | e # r \<Rightarrow>
                 if e \<in> set [CHR 0x22, CHR 0x5C, CHR ''/'', CHR ''b'', CHR ''f'', CHR ''n'', CHR ''r'', CHR ''t'']
                 then json_string_rest n r
                 else if e = CHR ''u'' \<and> 4 \<le> length r \<and> list_all is_hex (take 4 r)
                 then json_string_rest n (drop 4 r)
                 else None)
          else if (of_char c :: nat) < 32 then None
          else json_string_rest n cs)"

definition json_digits1 :: "string \<Rightarrow> string option" where
  "json_digits1 s = (if takeWhile is_digit s = [] then None else Some (dropWhile is_digit s))"

definition json_number :: "string \<Rightarrow> string option" where
  "json_number s =
     (let s1 = (case s of [] \<Rightarrow> [] | c # cs \<Rightarrow> if c = CHR ''-'' then cs else s) in
      case (case s1 of
              [] \<Rightarrow> None
            | c # cs \<Rightarrow> if c = CHR ''0'' then Some cs else json_digits1 s1) of
        None \<Rightarrow> None
      | Some s2 \<Rightarrow>
          (case (case s2 of
                   [] \<Rightarrow> Some s2
                 | c # cs \<Rightarrow> if c = CHR ''.'' then json_digits1 cs else Some s2) of
             None \<Rightarrow> None
           | Some s3 \<Rightarrow>
               (case s3 of
                  [] \<Rightarrow> Some s3
                | c # cs \<Rightarrow>
                    if c = CHR ''e'' \<or> c = CHR ''E'' then
                      (case cs of
                         [] \<Rightarrow> None
                       | d # ds \<Rightarrow> if d = CHR ''+'' \<or> d = CHR ''-'' then json_digits1 ds
                                   else json_digits1 cs)
                    else Some s3)))"

fun json_value :: "nat \<Rightarrow> string \<Rightarrow> string option"
  and json_elements :: "nat \<Rightarrow> string \<Rightarrow> string option"
  and json_members :: "nat \<Rightarrow> string \<Rightarrow> string option" where
  "json_value 0 s = None"
| "json_value (Suc n) s =
     (case s of
        [] \<Rightarrow> None
      | c # cs \<Rightarrow>
          if c = CHR ''{'' then
            (case dropWhile json_ws cs of
               [] \<Rightarrow> None
             | d # ds \<Rightarrow> if d = CHR ''}'' then Some ds else json_members n (d # ds))
          else if c = CHR ''['' then
            (case dropWhile json_ws cs of
               [] \<Rightarrow> None
             | d # ds \<Rightarrow> if d = CHR '']'' then Some ds else json_elements n (d # ds))
          else if c = CHR 0x22 then json_string_rest (length cs) cs
          else if prefix ''true'' s then Some (drop 4 s)
          else if prefix ''false'' s then Some (drop 5 s)
          else if prefix ''null'' s then Some (drop 4 s)
          else json_number s)"
| "json_elements 0 s = None"
| "json_elements (Suc n) s =
     (case json_value n s of
        None \<Rightarrow> None
      | Some r \<Rightarrow>
          (case dropWhile json_ws r of
             [] \<Rightarrow> None
           | c # cs \<Rightarrow>
               if c = CHR '','' then json_elements n (dropWhile json_ws cs)
               else if c = CHR '']'' then Some cs
               else None))"
| "json_members 0 s = None"
| "json_members (Suc n) s =
     (case s of
        [] \<Rightarrow> None
      | c # cs \<Rightarrow>
          if c \<noteq> CHR 0x22 then None
          else
            (case json_string_rest (length cs) cs of
               None \<Rightarrow> None
             | Some r \<Rightarrow>
                 (case dropWhile json_ws r of
                    [] \<Rightarrow> None
                  | d # ds \<Rightarrow>
                      if d \<noteq> CHR '':'' then None
                      else
                        (case json_value n (dropWhile json_ws ds) of
                           None \<Rightarrow> None
                         | Some r2 \<Rightarrow>
                             (case dropWhile json_ws r2 of
                                [] \<Rightarrow> None
                              | x # xs \<Rightarrow>
                                  if x = CHR '','' then json_members n (dropWhile json_ws xs)
                                  else if x = CHR ''}'' then Some xs
                                  else None)))))"

definition JSON_parse_ok :: "string \<Rightarrow> bool" where
  "JSON_parse_ok s =
     (case json_value (2 * length s + 2) (dropWhile json_ws s) of
        None \<Rightarrow> False
      | Some r \<Rightarrow> dropWhile json_ws r = [])"

section \<open>The tool-calling session loop (custom-provider)\<close>

definition SESSIONS_DIR :: string where "SESSIONS_DIR = path_join WORKSPACE_GROUP ''.sessions''"

datatype content = ContentString string | ContentParts "string option list" | ContentOther

text \<open>The arguments of a tool call, by what \<^verbatim>\<open>JSON.parse\<close> makes of their text: an
  object, or the message of the syntax error it throws. A missing text stands for the
  empty object.\<close>

datatype arguments = ArgsObject jobject | ArgsSyntaxError string

record tool_call =
  tc_id :: string
  tc_name :: "string option"
  tc_arguments :: "arguments option"

record assistant_message =
  am_content :: content
  am_tool_calls :: "tool_call list"

datatype message =
    UserMessage string
  | AssistantMessage assistant_message
  | ToolMessage string string

text \<open>What one \<^verbatim>\<open>client.chat.completions.create\<close> call does: it throws, it answers
  without a message, or it answers with one. The endpoint is a parameter; it is given
  the number of the round and the messages sent.\<close>

datatype completion = Throws string | NoMessage | Reply assistant_message

type_synonym endpoint = "nat \<Rightarrow> message list \<Rightarrow> completion"

text \<open>
  An executor takes the parsed arguments and the file system, returns a text or throws
  (\<open>Inl\<close>), and leaves a file system.
\<close>

type_synonym executor = "jobject \<Rightarrow> fs \<Rightarrow> (string + string) \<times> fs"

type_synonym executor_map = "string \<Rightarrow> executor option"

definition arg_string :: "jobject \<Rightarrow> string \<Rightarrow> string option" where
  "arg_string args k = (case map_of args k of Some (JString s) \<Rightarrow> Some s | _ \<Rightarrow> None)"

text \<open>
  The merged tool table of \<^verbatim>\<open>getExecutorMap\<close>: the built-in file tools as modelled
  above; \<open>others\<close> stands for the executors of the IPC tools and of \<^verbatim>\<open>Bash\<close>,
  \<^verbatim>\<open>Glob\<close>, \<^verbatim>\<open>Grep\<close>, \<^verbatim>\<open>WebSearch\<close> and \<^verbatim>\<open>WebFetch\<close>. The built-in tools are entered
  last, so they win a clash of names.
\<close>

definition builtin_executor :: "string \<Rightarrow> executor option" where
  "builtin_executor name =
     (if name = ''Read'' then Some (\<lambda>args. Read_execute (arg_string args ''path''))
      else if name = ''Write'' then
        Some (\<lambda>args. Write_execute (arg_string args ''path'') (arg_string args ''content''))
      else if name = ''Edit'' then
        Some (\<lambda>args. Edit_execute (arg_string args ''path'') (arg_string args ''old_string'')
                       (arg_string args ''new_string''))
      else None)"

definition getExecutorMap :: "executor_map \<Rightarrow> executor_map" where
  "getExecutorMap others name =
     (case builtin_executor name of Some ex \<Rightarrow> Some ex | None \<Rightarrow> others name)"

text \<open>\<^verbatim>\<open>JSON.stringify({ messages })\<close>, and the \<^verbatim>\<open>JSON.parse\<close> of a session file: it
  throws (\<open>Inl\<close> of the message), or gives the \<^verbatim>\<open>messages\<close> array if the text holds
  one.\<close>

record codec =
  encode_session :: "message list \<Rightarrow> string"
  decode_session :: "string \<Rightarrow> string + message list option"

record ContainerInput =
  ci_prompt :: string
  ci_sessionId :: "string option"
  ci_groupFolder :: string
  ci_chatJid :: string
  ci_isMain :: bool
  ci_isScheduledTask :: bool

datatype status = Success | Error

record ContainerOutput =
  co_status :: status
  co_result :: "string option"
  co_newSessionId :: "string option"
  co_error :: "string option"

text \<open>The provider settings after the configuration file and the environment were
  read, the lines \<^verbatim>\<open>loadCustomProviderConfig\<close> logged while reading them, and the
  identifier \<^verbatim>\<open>randomSessionId()\<close> would give.\<close>

record provider =
  baseURL :: "string option"
  apiKey :: "string option"
  config_log :: "string list"
  fresh_session_id :: string

definition session_path :: "string \<Rightarrow> string" where
  "session_path sessionId = path_join SESSIONS_DIR (sessionId @ ''.json'')"

text \<open>\<^verbatim>\<open>loadSession\<close> gives the messages, if any, and the line it logs when the file
  cannot be parsed.\<close>

definition loadSession :: "codec \<Rightarrow> fs \<Rightarrow> string \<Rightarrow> message list option \<times> string list" where
  "loadSession cd fs sessionId =
     (case readFileSync fs (session_path sessionId) of
        None \<Rightarrow> (None, [])
      | Some raw \<Rightarrow>
          (case decode_session cd raw of
             Inl err \<Rightarrow> (None, [''Failed to load session '' @ sessionId @ '': '' @ err])
           | Inr loaded \<Rightarrow> (loaded, [])))"

text \<open>
  What the operating system does to the two calls of \<^verbatim>\<open>saveSession\<close>: both succeed,
  or \<^verbatim>\<open>mkdirSync\<close> throws, or \<^verbatim>\<open>writeFileSync\<close> throws (it could not open the file,
  which is left as it was). \<^verbatim>\<open>mkdirSync\<close> stands outside the \<^verbatim>\<open>try\<close>: its error is
  thrown to the caller (\<open>Inl\<close>). A failed write is caught and logged, and
  \<^verbatim>\<open>saveSession\<close> returns normally.
\<close>

datatype save_fault = NoFault | MkdirThrows string | WriteThrows string

definition saveSession ::
  "codec \<Rightarrow> save_fault \<Rightarrow> fs \<Rightarrow> string \<Rightarrow> message list \<Rightarrow> string + fs \<times> string list" where
  "saveSession cd fault fs sessionId messages =
     (case fault of
        MkdirThrows err \<Rightarrow> Inl err
      | WriteThrows err \<Rightarrow> Inr (fs, [''Failed to save session '' @ sessionId @ '': '' @ err])
      | NoFault \<Rightarrow>
          Inr (writeFileSync fs (session_path sessionId) (encode_session cd messages), []))"

text \<open>One tool call of a round: an unknown name gives a synthetic result; the arguments
  are parsed and the executor is run inside a \<^verbatim>\<open>try\<close>, so a thrown error becomes the
  result text.\<close>

definition run_tool_call :: "executor_map \<Rightarrow> tool_call \<Rightarrow> fs \<Rightarrow> string \<times> fs" where
  "run_tool_call executorMap tc fs =
     (let parsed = (case tc_arguments tc of None \<Rightarrow> ArgsObject [] | Some a \<Rightarrow> a);
          executor = (case tc_name tc of
                        None \<Rightarrow> None
                      | Some name \<Rightarrow> if name = [] then None else executorMap name)
      in case executor of
           Some ex \<Rightarrow>
             (case parsed of
                ArgsSyntaxError err \<Rightarrow> (''Error: '' @ err, fs)
              | ArgsObject args \<Rightarrow>
                  (case ex args fs of
                     (Inl err, fs') \<Rightarrow> (''Error: '' @ err, fs')
                   | (Inr content, fs') \<Rightarrow> (content, fs')))
         | None \<Rightarrow>
             (''Unknown tool: '' @ (case tc_name tc of None \<Rightarrow> ''null'' | Some name \<Rightarrow> name), fs))"

fun run_tool_calls ::
  "executor_map \<Rightarrow> tool_call list \<Rightarrow> message list \<Rightarrow> fs \<Rightarrow> message list \<times> fs" where
  "run_tool_calls executorMap [] messages fs = (messages, fs)"
| "run_tool_calls executorMap (tc # tcs) messages fs =
     (case run_tool_call executorMap tc fs of
        (content, fs') \<Rightarrow>
          run_tool_calls executorMap tcs (messages @ [ToolMessage (tc_id tc) content]) fs')"

definition content_text :: "content \<Rightarrow> string" where
  "content_text c =
     (case c of
        ContentString s \<Rightarrow> s
      | ContentParts parts \<Rightarrow> concat (map (\<lambda>p. case p of None \<Rightarrow> [] | Some t \<Rightarrow> t) parts)
      | ContentOther \<Rightarrow> [])"

text \<open>\<^verbatim>\<open>text || null\<close>.\<close>

definition text_or_null :: "string \<Rightarrow> string option" where
  "text_or_null t = (if t = [] then None else Some t)"

definition maxRounds :: nat where "maxRounds = 30"

definition round_line :: "nat \<Rightarrow> string" where
  "round_line n = ''Custom provider round '' @ show_nat n"

text \<open>How the \<^verbatim>\<open>while\<close> loop is left: by its condition or a \<^verbatim>\<open>break\<close> (with the
  \<^verbatim>\<open>result\<close> so far), by the \<^verbatim>\<open>return\<close> for a response without a message, or by the
  exception of the completion call. Each carries the round counter, the messages, the
  file system and the lines logged at that point.\<close>

datatype loop_exit =
    LoopDone "string option" nat "message list" fs "string list"
  | LoopNoMessage nat "message list" fs "string list"
  | LoopThrew string nat "message list" fs "string list"

function rounds_loop ::
  "endpoint \<Rightarrow> executor_map \<Rightarrow> nat \<Rightarrow> message list \<Rightarrow> fs \<Rightarrow> string list \<Rightarrow> loop_exit" where
  "rounds_loop ep executorMap round messages fs lg =
     (if round < maxRounds then
        (case ep (round + 1) messages of
           Throws err \<Rightarrow> LoopThrew err (round + 1) messages fs (lg @ [round_line (round + 1)])
         | NoMessage \<Rightarrow> LoopNoMessage (round + 1) messages fs (lg @ [round_line (round + 1)])
         | Reply msg \<Rightarrow>
             if am_tool_calls msg \<noteq> [] then
               (case run_tool_calls executorMap (am_tool_calls msg)
                       (messages @ [AssistantMessage msg]) fs of
                  (messages', fs') \<Rightarrow>
                    rounds_loop ep executorMap (round + 1) messages' fs'
                      (lg @ [round_line (round + 1)]))
             else
               LoopDone (text_or_null (content_text (am_content msg)))
                 (round + 1) (messages @ [AssistantMessage msg]) fs
                 (lg @ [round_line (round + 1)]))
      else LoopDone None round messages fs lg)"
  by pat_completeness auto
termination
  by (relation "measure (\<lambda>(ep, executorMap, round, messages, fs, lg). maxRounds - round)") auto

declare rounds_loop.simps [simp del]

text \<open>What a run leaves: the one \<^verbatim>\<open>writeOutput\<close> call, the error it rethrows if any,
  the round counter, the messages in memory (the code drops them), the file system, and
  the lines it logged.\<close>

record run_result =
  rr_output :: ContainerOutput
  rr_rethrown :: "string option"
  rr_round :: nat
  rr_messages :: "message list"
  rr_fs :: fs
  rr_log :: "string list"

definition scheduled_prefix :: string where
  "scheduled_prefix =
     ''[SCHEDULED TASK - You are running automatically. Use mcp__nanoclaw__send_message if needed to communicate with the user.]''
     @ [CHR 0x0A, CHR 0x0A]"

definition config_error :: string where
  "config_error = ''Set CUSTOM_PROVIDER_BASE_URL and CUSTOM_PROVIDER_API_KEY in .env, or create data/env/custom-provider.json with baseURL and apiKey''"

definition error_output :: "string option \<Rightarrow> string \<Rightarrow> ContainerOutput" where
  "error_output sessionId err =
     \<lparr>co_status = Error, co_result = None, co_newSessionId = sessionId, co_error = Some err\<rparr>"

definition runCustomProvider ::
  "provider \<Rightarrow> codec \<Rightarrow> save_fault \<Rightarrow> endpoint \<Rightarrow> executor_map \<Rightarrow> ContainerInput \<Rightarrow> fs \<Rightarrow> run_result" where
  "runCustomProvider pv cd fault ep executorMap input fs =
     (if or_default (baseURL pv) [] = [] \<or> or_default (apiKey pv) [] = [] then
        \<lparr>rr_output = error_output None config_error,
         rr_rethrown = None, rr_round = 0, rr_messages = [], rr_fs = fs, rr_log = config_log pv\<rparr>
      else
        (let sessionId = (case ci_sessionId input of None \<Rightarrow> fresh_session_id pv | Some s \<Rightarrow> s);
             loaded = loadSession cd fs sessionId;
             prompt = (if ci_isScheduledTask input then scheduled_prefix @ ci_prompt input
                       else ci_prompt input);
             messages = (case fst loaded of None \<Rightarrow> [] | Some ms \<Rightarrow> ms) @ [UserMessage prompt]
         in case rounds_loop ep executorMap 0 messages fs (config_log pv @ snd loaded) of
              LoopNoMessage round ms fs' lg \<Rightarrow>
                \<lparr>rr_output = error_output (Some sessionId) ''No message in completion response'',
                 rr_rethrown = None, rr_round = round, rr_messages = ms, rr_fs = fs', rr_log = lg\<rparr>
            | LoopThrew err round ms fs' lg \<Rightarrow>
                \<lparr>rr_output = error_output (Some sessionId) err,
                 rr_rethrown = Some err, rr_round = round, rr_messages = ms, rr_fs = fs',
                 rr_log = lg @ [''Custom provider error: '' @ err]\<rparr>
            | LoopDone result round ms fs' lg \<Rightarrow>
                if result = None \<and> round \<ge> maxRounds then
                  \<lparr>rr_output = error_output (Some sessionId) ''Max tool rounds exceeded'',
                   rr_rethrown = None, rr_round = round, rr_messages = ms, rr_fs = fs', rr_log = lg\<rparr>
                else
                  (case saveSession cd fault fs' sessionId ms of
                     Inl err \<Rightarrow>
                       \<lparr>rr_output = error_output (Some sessionId) err,
                        rr_rethrown = Some err, rr_round = round, rr_messages = ms, rr_fs = fs',
                        rr_log = lg @ [''Custom provider error: '' @ err]\<rparr>
                   | Inr (fs'', save_lines) \<Rightarrow>
                       \<lparr>rr_output = \<lparr>co_status = Success, co_result = result,
                                      co_newSessionId = Some sessionId, co_error = None\<rparr>,
                        rr_rethrown = None, rr_round = round, rr_messages = ms, rr_fs = fs'',
                        rr_log = lg @ save_lines @ [''Custom provider completed successfully'']\<rparr>)))"

section \<open>Notions the properties are stated with\<close>

text \<open>A schedule value that its declared schedule type does not accept.\<close>

definition fails_validation :: "parsers \<Rightarrow> string \<Rightarrow> string \<Rightarrow> bool" where
  "fails_validation ps schedule_type schedule_value =
     ((schedule_type = ''cron'' \<and> \<not> cron_parses ps schedule_value)
      \<or> (schedule_type = ''interval'' \<and> interval_rejected schedule_value)
      \<or> (schedule_type = ''once'' \<and> \<not> date_parses ps schedule_value))"

text \<open>The specification's reading of the interval rule: the whole value is a decimal
  numeral, and it is positive.\<close>

definition spec_positive_base10_integer :: "string \<Rightarrow> bool" where
  "spec_positive_base10_integer s = (s \<noteq> [] \<and> list_all is_digit s \<and> 0 < digits_value s)"

text \<open>What the interval rule of the code accepts: white space, an optional plus sign,
  a run of digits with a positive value, and then anything.\<close>

definition leading_positive_integer :: "string \<Rightarrow> bool" where
  "leading_positive_integer v =
     (\<exists>ws sg ds rest. v = ws @ sg @ ds @ rest \<and> list_all is_js_whitespace ws
        \<and> (sg = [] \<or> sg = ''+'') \<and> ds \<noteq> [] \<and> list_all is_digit ds \<and> 0 < digits_value ds)"

text \<open>The specification's reading of the sandbox: a path is within the root when it is
  the root or lies below it.\<close>

definition spec_within_root :: "string \<Rightarrow> string \<Rightarrow> bool" where
  "spec_within_root root p = (p = root \<or> prefix (root @ ''/'') p)"

text \<open>A provider with both settings present, and the session a run uses.\<close>

definition configured :: "provider \<Rightarrow> bool" where
  "configured pv = (or_default (baseURL pv) [] \<noteq> [] \<and> or_default (apiKey pv) [] \<noteq> [])"

definition session_of :: "provider \<Rightarrow> ContainerInput \<Rightarrow> string" where
  "session_of pv input = (case ci_sessionId input of None \<Rightarrow> fresh_session_id pv | Some s \<Rightarrow> s)"

text \<open>The history a run starts from: the turns of the session file, if it holds any,
  and the prompt; and the lines logged before the first round.\<close>

definition first_messages :: "provider \<Rightarrow> codec \<Rightarrow> ContainerInput \<Rightarrow> fs \<Rightarrow> message list" where
  "first_messages pv cd input fs =
     (case fst (loadSession cd fs (session_of pv input)) of None \<Rightarrow> [] | Some ms \<Rightarrow> ms)
     @ [UserMessage (if ci_isScheduledTask input then scheduled_prefix @ ci_prompt input
                     else ci_prompt input)]"

definition first_log :: "provider \<Rightarrow> codec \<Rightarrow> ContainerInput \<Rightarrow> fs \<Rightarrow> string list" where
  "first_log pv cd input fs = config_log pv @ snd (loadSession cd fs (session_of pv input))"

text \<open>
  The specification's account of a round in which the model requests tool calls: the
  history is sent to the endpoint, its message is appended, each call is resolved in
  order and its result appended. \<open>after_rounds k\<close> is the history and the file system
  after \<open>k\<close> such rounds, numbered from 1.
\<close>

definition one_round ::
  "endpoint \<Rightarrow> executor_map \<Rightarrow> nat \<Rightarrow> message list \<times> fs \<Rightarrow> message list \<times> fs" where
  "one_round ep executorMap n st =
     (case ep n (fst st) of
        Reply msg \<Rightarrow>
          run_tool_calls executorMap (am_tool_calls msg) (fst st @ [AssistantMessage msg]) (snd st)
      | Throws err \<Rightarrow> st
      | NoMessage \<Rightarrow> st)"

primrec after_rounds ::
  "endpoint \<Rightarrow> executor_map \<Rightarrow> nat \<Rightarrow> message list \<times> fs \<Rightarrow> message list \<times> fs" where
  "after_rounds ep executorMap 0 st = st"
| "after_rounds ep executorMap (Suc k) st =
     one_round ep executorMap (Suc k) (after_rounds ep executorMap k st)"

text \<open>Round \<open>n\<close> of a run from \<open>st\<close> is answered with tool calls; so are the first \<open>k\<close>
  rounds.\<close>

definition requests_tools :: "endpoint \<Rightarrow> executor_map \<Rightarrow> message list \<times> fs \<Rightarrow> nat \<Rightarrow> bool" where
  "requests_tools ep executorMap st n =
     (case ep n (fst (after_rounds ep executorMap (n - 1) st)) of
        Reply msg \<Rightarrow> am_tool_calls msg \<noteq> []
      | Throws err \<Rightarrow> False
      | NoMessage \<Rightarrow> False)"

definition tool_rounds :: "endpoint \<Rightarrow> executor_map \<Rightarrow> message list \<times> fs \<Rightarrow> nat \<Rightarrow> bool" where
  "tool_rounds ep executorMap st k = (\<forall>n. 1 \<le> n \<and> n \<le> k \<longrightarrow> requests_tools ep executorMap st n)"

text \<open>An endpoint that answers each of the rounds 1 to \<open>k\<close> with tool calls, whatever
  it is sent; nothing is said of later rounds.\<close>

definition answers_with_tool_calls :: "endpoint \<Rightarrow> nat \<Rightarrow> bool" where
  "answers_with_tool_calls ep k =
     (\<forall>n ms. n \<le> k \<longrightarrow> (\<exists>msg. ep n ms = Reply msg \<and> am_tool_calls msg \<noteq> []))"

text \<open>The lines the rounds 1 to \<open>k\<close> log.\<close>

definition round_lines :: "nat \<Rightarrow> string list" where
  "round_lines k = map round_line [1..<Suc k]"

fun is_assistant :: "message \<Rightarrow> bool" where
  "is_assistant (AssistantMessage m) = True"
| "is_assistant (UserMessage t) = False"
| "is_assistant (ToolMessage i c) = False"

text \<open>How the loop ends when exactly the first \<open>k\<close> rounds are answered with tool calls:
  with the budget spent, or by what round \<open>k + 1\<close> brings.\<close>

definition exit_after ::
  "endpoint \<Rightarrow> executor_map \<Rightarrow> message list \<times> fs \<Rightarrow> string list \<Rightarrow> nat \<Rightarrow> loop_exit" where
  "exit_after ep executorMap st lg k =
     (let H = fst (after_rounds ep executorMap k st);
          F = snd (after_rounds ep executorMap k st)
      in if maxRounds \<le> k then LoopDone None k H F (lg @ round_lines k)
         else (case ep (k + 1) H of
                 Throws err \<Rightarrow> LoopThrew err (k + 1) H F (lg @ round_lines (k + 1))
               | NoMessage \<Rightarrow> LoopNoMessage (k + 1) H F (lg @ round_lines (k + 1))
               | Reply msg \<Rightarrow>
                   LoopDone (text_or_null (content_text (am_content msg))) (k + 1)
                     (H @ [AssistantMessage msg]) F (lg @ round_lines (k + 1))))"

text \<open>No tool call that the endpoint may request changes the file at \<open>p\<close>.\<close>

definition calls_leave :: "endpoint \<Rightarrow> executor_map \<Rightarrow> string \<Rightarrow> bool" where
  "calls_leave ep executorMap p =
     (\<forall>n ms msg tc fs. ep n ms = Reply msg \<longrightarrow> tc \<in> set (am_tool_calls msg) \<longrightarrow>
        readFileSync (snd (run_tool_call executorMap tc fs)) p = readFileSync fs p)"

subsection \<open>Example inputs\<close>

definition example_ctx :: IpcMcpContext where
  "example_ctx = \<lparr>chatJid = ''family@g.us'', groupFolder = ''family'', isMain = False\<rparr>"

definition example_env :: env where
  "example_env = \<lparr>now_ms = 17, rand_suffix = ''abc123'', iso_now = ''2026-02-01T15:30:00.000Z''\<rparr>"

definition accept_all :: parsers where
  "accept_all = \<lparr>cron_parses = (\<lambda>v. True), date_parses = (\<lambda>v. True)\<rparr>"

definition reject_all :: parsers where
  "reject_all = \<lparr>cron_parses = (\<lambda>v. False), date_parses = (\<lambda>v. False)\<rparr>"

definition example_mcp_args :: mcp_schedule_args where
  "example_mcp_args =
     \<lparr>m_prompt = ''water the plants'', m_schedule_type = ''interval'',
      m_schedule_value = ''300000'', m_context_mode = None,
      m_target_group_jid = Some ''other@g.us''\<rparr>"

definition example_oa_args :: oa_schedule_args where
  "example_oa_args =
     \<lparr>a_prompt = Some ''water the plants'', a_schedule_type = Some ''interval'',
      a_schedule_value = Some ''300000'', a_context_mode = None,
      a_target_group = Some ''other''\<rparr>"

definition example_message :: jobject where
  "example_message = [(''type'', JString ''message''), (''text'', JString ''hi'')]"

definition example_chunks :: "string list" where
  "example_chunks =
     [take 12 (JSON_stringify example_message), drop 12 (JSON_stringify example_message)]"

definition example_provider :: provider where
  "example_provider =
     \<lparr>baseURL = Some ''https://llm.example/v1'', apiKey = Some ''key'', config_log = [],
      fresh_session_id = ''s0''\<rparr>"

definition example_codec :: codec where
  "example_codec =
     \<lparr>encode_session = (\<lambda>ms. ''messages: '' @ show_nat (length ms)),
      decode_session = (\<lambda>raw. Inr None)\<rparr>"

definition example_input :: ContainerInput where
  "example_input =
     \<lparr>ci_prompt = ''hello'', ci_sessionId = Some ''s1'', ci_groupFolder = ''family'',
      ci_chatJid = ''family@g.us'', ci_isMain = False, ci_isScheduledTask = False\<rparr>"

text \<open>The program's tool table with no other tools, and three assistant messages: one
  asks to read a file, one to write a file of notes, one to write the session file.\<close>

definition example_tools :: executor_map where
  "example_tools = getExecutorMap (\<lambda>name. None)"

definition read_call :: assistant_message where
  "read_call =
     \<lparr>am_content = ContentOther,
      am_tool_calls = [\<lparr>tc_id = ''call-1'', tc_name = Some ''Read'',
                        tc_arguments = Some (ArgsObject [(''path'', JString ''notes.txt'')])\<rparr>]\<rparr>"

definition write_notes_call :: assistant_message where
  "write_notes_call =
     \<lparr>am_content = ContentOther,
      am_tool_calls = [\<lparr>tc_id = ''call-2'', tc_name = Some ''Write'',
                        tc_arguments = Some (ArgsObject [(''path'', JString ''out.txt''),
                                                         (''content'', JString ''x'')])\<rparr>]\<rparr>"

definition write_session_call :: assistant_message where
  "write_session_call =
     \<lparr>am_content = ContentOther,
      am_tool_calls = [\<lparr>tc_id = ''call-3'', tc_name = Some ''Write'',
                        tc_arguments = Some (ArgsObject [(''path'', JString ''.sessions/s1.json''),
                                                         (''content'', JString ''[]'')])\<rparr>]\<rparr>"

text \<open>An endpoint that asks for the read in each of the first 30 rounds and would throw
  in a later one; one that asks for the read and the write of notes and then answers;
  and one that asks for the write of the session file in every round.\<close>

definition looping_endpoint :: endpoint where
  "looping_endpoint n ms = (if n \<le> 30 then Reply read_call else Throws ''round 31'')"

definition answering_endpoint :: endpoint where
  "answering_endpoint n ms =
     (if n = 1 then Reply read_call
      else if n = 2 then Reply write_notes_call
      else Reply \<lparr>am_content = ContentString ''done'', am_tool_calls = []\<rparr>)"

definition overwriting_endpoint :: endpoint where
  "overwriting_endpoint n ms = Reply write_session_call"

definition example_fs :: fs where
  "example_fs =
     [(''/workspace/group/notes.txt'', ''hello''),
      (''/workspace/group/.sessions/s1.json'', ''earlier'')]"

section \<open>Properties\<close>

subsection \<open>Scheduling requests\<close>

lemma map_of_writeIpcFile:
  "writeIpcFile e dir data fs = (name, fs') \<Longrightarrow>
     name = ipc_filename e \<and>
     map_of fs' (path_join dir (ipc_filename e)) = Some (JSON_stringify data)"
  by (auto simp: writeIpcFile_def Let_def writeFileSync_def renameSync_def update_conv')

lemma parseInt10_300000: "parseInt10 ''300000'' = Some 300000"
  by (simp add: parseInt10_def is_js_whitespace_def is_digit_def digits_value_def digit_value_def)

lemma interval_accepts_300000: "\<not> interval_rejected ''300000''"
  by (simp add: interval_rejected_def parseInt10_300000)

text \<open>
  Claim C1. When the requesting context is not the main one, the schedule request that
  \<^verbatim>\<open>schedule_task\<close> builds names the requester's own conversation as its target,
  whatever target the caller supplied: \<^verbatim>\<open>targetJid\<close> is the requester's \<^verbatim>\<open>chatJid\<close> on
  the MCP path, and \<^verbatim>\<open>chatJid\<close> and \<^verbatim>\<open>groupFolder\<close> are the requester's own on the
  OpenAI path. The rewrite is made when the payload is built, and that payload is what
  the file in the tasks directory holds.
\<close>

theorem schedule_task_non_main_targets_own_conversation:
  assumes "\<not> isMain ctx"
  shows "map_of (mcp_schedule_data ctx e margs) ''targetJid'' = Some (JString (chatJid ctx))
       \<and> map_of (oa_schedule_data ctx e oargs) ''chatJid'' = Some (JString (chatJid ctx))
       \<and> map_of (oa_schedule_data ctx e oargs) ''groupFolder'' = Some (JString (groupFolder ctx))
       \<and> (mcp_schedule_validate ps margs = None \<longrightarrow>
            readFileSync (snd (mcp_schedule_task ps ctx e margs fs)) (path_join TASKS_DIR (ipc_filename e))
              = Some (JSON_stringify (mcp_schedule_data ctx e margs)))
       \<and> (oa_schedule_validate ps oargs = None \<longrightarrow>
            readFileSync (snd (oa_schedule_task ps ctx e oargs fs)) (path_join TASKS_DIR (ipc_filename e))
              = Some (JSON_stringify (oa_schedule_data ctx e oargs)))"
proof -
  have a: "map_of (mcp_schedule_data ctx e margs) ''targetJid'' = Some (JString (chatJid ctx))"
    using assms by (simp add: mcp_schedule_data_def split: option.splits)
  have b: "map_of (oa_schedule_data ctx e oargs) ''chatJid'' = Some (JString (chatJid ctx))"
    by (simp add: oa_schedule_data_def)
  have c: "map_of (oa_schedule_data ctx e oargs) ''groupFolder'' = Some (JString (groupFolder ctx))"
    using assms by (simp add: oa_schedule_data_def split: option.splits)
  have d: "readFileSync (snd (mcp_schedule_task ps ctx e margs fs)) (path_join TASKS_DIR (ipc_filename e))
              = Some (JSON_stringify (mcp_schedule_data ctx e margs))"
    if "mcp_schedule_validate ps margs = None"
  proof -
    obtain name fs' where w: "writeIpcFile e TASKS_DIR (mcp_schedule_data ctx e margs) fs = (name, fs')"
      by (cases "writeIpcFile e TASKS_DIR (mcp_schedule_data ctx e margs) fs") auto
    then show ?thesis using that map_of_writeIpcFile[OF w]
      by (simp add: mcp_schedule_task_def readFileSync_def)
  qed
  have f: "readFileSync (snd (oa_schedule_task ps ctx e oargs fs)) (path_join TASKS_DIR (ipc_filename e))
              = Some (JSON_stringify (oa_schedule_data ctx e oargs))"
    if "oa_schedule_validate ps oargs = None"
  proof -
    obtain name fs' where w: "writeIpcFile e TASKS_DIR (oa_schedule_data ctx e oargs) fs = (name, fs')"
      by (cases "writeIpcFile e TASKS_DIR (oa_schedule_data ctx e oargs) fs") auto
    then show ?thesis using that map_of_writeIpcFile[OF w]
      by (simp add: oa_schedule_task_def readFileSync_def)
  qed
  from a b c d f show ?thesis by blast
qed

theorem schedule_task_non_main_targets_own_conversation_witness:
  "\<not> isMain example_ctx
   \<and> m_target_group_jid example_mcp_args = Some ''other@g.us''
   \<and> a_target_group example_oa_args = Some ''other''
   \<and> map_of (mcp_schedule_data example_ctx example_env example_mcp_args) ''targetJid''
       = Some (JString ''family@g.us'')
   \<and> map_of (oa_schedule_data example_ctx example_env example_oa_args) ''chatJid''
       = Some (JString ''family@g.us'')
   \<and> map_of (oa_schedule_data example_ctx example_env example_oa_args) ''groupFolder''
       = Some (JString ''family'')
   \<and> mcp_schedule_validate accept_all example_mcp_args = None
   \<and> readFileSync (snd (mcp_schedule_task accept_all example_ctx example_env example_mcp_args []))
         (path_join TASKS_DIR (ipc_filename example_env))
       = Some (JSON_stringify (mcp_schedule_data example_ctx example_env example_mcp_args))
   \<and> oa_schedule_validate accept_all example_oa_args = None
   \<and> readFileSync (snd (oa_schedule_task accept_all example_ctx example_env example_oa_args []))
         (path_join TASKS_DIR (ipc_filename example_env))
       = Some (JSON_stringify (oa_schedule_data example_ctx example_env example_oa_args))"
proof -
  have h: "\<not> isMain example_ctx" by (simp add: example_ctx_def)
  have v1: "mcp_schedule_validate accept_all example_mcp_args = None"
    using interval_accepts_300000 by (simp add: mcp_schedule_validate_def example_mcp_args_def)
  have v2: "oa_schedule_validate accept_all example_oa_args = None"
    using interval_accepts_300000
    by (simp add: oa_schedule_validate_def oa_schedule_type_def oa_schedule_value_def
          or_default_def example_oa_args_def)
  have own: "chatJid example_ctx = ''family@g.us''" "groupFolder example_ctx = ''family''"
    by (simp_all add: example_ctx_def)
  have args: "m_target_group_jid example_mcp_args = Some ''other@g.us''"
    "a_target_group example_oa_args = Some ''other''"
    by (simp_all add: example_mcp_args_def example_oa_args_def)
  note t = schedule_task_non_main_targets_own_conversation[OF h,
      of example_env example_mcp_args example_oa_args accept_all "[]", unfolded own]
  note t1 = t[THEN conjunct1]
  note t2 = t[THEN conjunct2, THEN conjunct1]
  note t3 = t[THEN conjunct2, THEN conjunct2, THEN conjunct1]
  note t4 = t[THEN conjunct2, THEN conjunct2, THEN conjunct2, THEN conjunct1, THEN mp, OF v1]
  note t5 = t[THEN conjunct2, THEN conjunct2, THEN conjunct2, THEN conjunct2, THEN mp, OF v2]
  show ?thesis by (intro conjI h args t1 t2 t3 v1 t4 v2 t5)
qed

text \<open>
  Claim C4. A \<^verbatim>\<open>schedule_task\<close> call whose schedule value fails the validation of its
  schedule type (a cron expression that does not parse, an interval that is not a number
  or not positive, a timestamp that does not parse) returns an error message, and the
  file system, the tasks directory included, is as it was: no IPC file is written.
  This holds on both paths.
\<close>

theorem invalid_schedule_writes_nothing:
  "(fails_validation ps (m_schedule_type margs) (m_schedule_value margs) \<longrightarrow>
      (\<exists>msg. mcp_schedule_task ps ctx e margs fs = (ToolError msg, fs) \<and> prefix ''Invalid '' msg))
   \<and> (fails_validation ps (oa_schedule_type oargs) (oa_schedule_value oargs) \<longrightarrow>
      (\<exists>msg. oa_schedule_task ps ctx e oargs fs = (msg, fs) \<and> prefix ''Invalid '' msg))"
  by (auto simp: fails_validation_def mcp_schedule_task_def mcp_schedule_validate_def
       oa_schedule_task_def oa_schedule_validate_def Let_def)

lemma interval_rejects_minus5: "interval_rejected ''-5''"
  by (simp add: interval_rejected_def parseInt10_def is_js_whitespace_def is_digit_def
        digits_value_def digit_value_def)

theorem invalid_schedule_writes_nothing_witness:
  "fails_validation reject_all (m_schedule_type (example_mcp_args\<lparr>m_schedule_value := ''-5''\<rparr>))
       (m_schedule_value (example_mcp_args\<lparr>m_schedule_value := ''-5''\<rparr>))
   \<and> snd (mcp_schedule_task reject_all example_ctx example_env
            (example_mcp_args\<lparr>m_schedule_value := ''-5''\<rparr>) example_fs) = example_fs
   \<and> fails_validation reject_all (oa_schedule_type (example_oa_args\<lparr>a_schedule_type := Some ''cron''\<rparr>))
       (oa_schedule_value (example_oa_args\<lparr>a_schedule_type := Some ''cron''\<rparr>))
   \<and> snd (oa_schedule_task reject_all example_ctx example_env
            (example_oa_args\<lparr>a_schedule_type := Some ''cron''\<rparr>) example_fs) = example_fs"
proof -
  have f1: "fails_validation reject_all (m_schedule_type (example_mcp_args\<lparr>m_schedule_value := ''-5''\<rparr>))
       (m_schedule_value (example_mcp_args\<lparr>m_schedule_value := ''-5''\<rparr>))"
    using interval_rejects_minus5 by (simp add: fails_validation_def example_mcp_args_def)
  have f2: "fails_validation reject_all (oa_schedule_type (example_oa_args\<lparr>a_schedule_type := Some ''cron''\<rparr>))
       (oa_schedule_value (example_oa_args\<lparr>a_schedule_type := Some ''cron''\<rparr>))"
    by (simp add: fails_validation_def oa_schedule_type_def or_default_def reject_all_def)
  note t = invalid_schedule_writes_nothing[of reject_all "example_mcp_args\<lparr>m_schedule_value := ''-5''\<rparr>"
      example_ctx example_env example_fs "example_oa_args\<lparr>a_schedule_type := Some ''cron''\<rparr>"]
  from t[THEN conjunct1, THEN mp, OF f1] obtain msg1 where "mcp_schedule_task reject_all example_ctx example_env
            (example_mcp_args\<lparr>m_schedule_value := ''-5''\<rparr>) example_fs = (ToolError msg1, example_fs)"
    by (elim exE conjE)
  then have s1: "snd (mcp_schedule_task reject_all example_ctx example_env
            (example_mcp_args\<lparr>m_schedule_value := ''-5''\<rparr>) example_fs) = example_fs"
    by simp
  from t[THEN conjunct2, THEN mp, OF f2] obtain msg2 where "oa_schedule_task reject_all example_ctx example_env
            (example_oa_args\<lparr>a_schedule_type := Some ''cron''\<rparr>) example_fs = (msg2, example_fs)"
    by (elim exE conjE)
  then have s2: "snd (oa_schedule_task reject_all example_ctx example_env
            (example_oa_args\<lparr>a_schedule_type := Some ''cron''\<rparr>) example_fs) = example_fs"
    by simp
  show ?thesis by (intro conjI f1 s1 f2 s2)
qed

subsection \<open>The interval rule\<close>

lemma digits_value_append:
  "digits_value (xs @ ys) = digits_value xs * 10 ^ length ys + digits_value ys"
  unfolding digits_value_def
proof (induction ys arbitrary: xs rule: rev_induct)
  case Nil
  then show ?case by simp
next
  case (snoc y ys)
  have "foldl (\<lambda>acc c. 10 * acc + digit_value c) 0 (xs @ ys @ [y]) =
        10 * foldl (\<lambda>acc c. 10 * acc + digit_value c) 0 (xs @ ys) + digit_value y"
    by simp
  then show ?case using snoc[of xs] by (simp add: algebra_simps)
qed

lemma digits_value_pos_append: "0 < digits_value xs \<Longrightarrow> 0 < digits_value (xs @ ys)"
  by (simp add: digits_value_append)

lemma digit_not_whitespace: "is_digit c \<Longrightarrow> \<not> is_js_whitespace c"
  by (auto simp: is_digit_def is_js_whitespace_def)

lemma sign_not_whitespace: "\<not> is_js_whitespace CHR ''+''" "\<not> is_js_whitespace CHR ''-''"
  by (simp_all add: is_js_whitespace_def)

lemma sign_not_digit: "\<not> is_digit CHR ''+''" "\<not> is_digit CHR ''-''"
  by (simp_all add: is_digit_def)

lemma dropWhile_all_prefix:
  "list_all P ws \<Longrightarrow> ys \<noteq> [] \<Longrightarrow> \<not> P (hd ys) \<Longrightarrow> dropWhile P (ws @ ys) = ys"
  by (induction ws) (auto simp: neq_Nil_conv)

lemma interval_accepted_iff: "(\<not> interval_rejected v) = leading_positive_integer v"
proof
  assume acc: "\<not> interval_rejected v"
  define S where "S = dropWhile is_js_whitespace v"
  define ws where "ws = takeWhile is_js_whitespace v"
  have v: "v = ws @ S" by (simp add: S_def ws_def)
  have wsall: "list_all is_js_whitespace ws"
    unfolding ws_def list_all_iff by (auto dest: set_takeWhileD)
  from acc obtain ms where ms: "parseInt10 v = Some ms" "0 < ms"
    by (auto simp: interval_rejected_def split: option.splits)
  show "leading_positive_integer v"
  proof (cases S)
    case Nil
    with ms show ?thesis by (simp add: parseInt10_def S_def[symmetric] Let_def)
  next
    case (Cons c cs)
    show ?thesis
    proof (cases "c = CHR ''-''")
      case True
      with ms Cons show ?thesis
        by (auto simp: parseInt10_def S_def[symmetric] Let_def split: if_splits)
    next
      case notminus: False
      define S' where "S' = (if c = CHR ''+'' then cs else S)"
      define sg where "sg = (if c = CHR ''+'' then ''+'' else [])"
      have S: "S = sg @ S'" using Cons by (auto simp: S'_def sg_def)
      define ds where "ds = takeWhile is_digit S'"
      have S'2: "S' = ds @ dropWhile is_digit S'" by (simp add: ds_def)
      from ms Cons notminus have "ds \<noteq> []" "0 < digits_value ds"
        by (auto simp: parseInt10_def S_def[symmetric] Let_def ds_def S'_def split: if_splits)
      moreover have "list_all is_digit ds"
        unfolding ds_def list_all_iff by (auto dest: set_takeWhileD)
      moreover have "v = ws @ sg @ ds @ dropWhile is_digit S'"
        using v S S'2 by simp
      moreover have "sg = [] \<or> sg = ''+''" by (simp add: sg_def)
      ultimately show ?thesis unfolding leading_positive_integer_def using wsall by blast
    qed
  qed
next
  assume "leading_positive_integer v"
  then obtain ws sg ds rest where v: "v = ws @ sg @ ds @ rest"
    and ws: "list_all is_js_whitespace ws" and sg: "sg = [] \<or> sg = ''+''"
    and ds: "ds \<noteq> []" "list_all is_digit ds" "0 < digits_value ds"
    unfolding leading_positive_integer_def by blast
  from ds obtain d ds' where dd: "ds = d # ds'" "is_digit d" by (cases ds) auto
  have hdnw: "\<not> is_js_whitespace (hd (sg @ ds @ rest))"
    using sg dd digit_not_whitespace sign_not_whitespace by auto
  have ne: "sg @ ds @ rest \<noteq> []" using ds by simp
  have S: "dropWhile is_js_whitespace v = sg @ ds @ rest"
    unfolding v using ws hdnw ne by (simp add: dropWhile_all_prefix)
  have tw: "takeWhile is_digit (ds @ rest) = ds @ takeWhile is_digit rest"
    using ds(2) by (simp add: list_all_iff takeWhile_append2)
  have pos: "0 < digits_value (ds @ takeWhile is_digit rest)"
    using ds(3) by (rule digits_value_pos_append)
  show "\<not> interval_rejected v"
    using sg
  proof
    assume "sg = []"
    then show ?thesis using S dd tw pos sign_not_digit
      by (auto simp: interval_rejected_def parseInt10_def Let_def)
  next
    assume "sg = ''+''"
    then show ?thesis using S dd tw pos
      by (auto simp: interval_rejected_def parseInt10_def Let_def)
  qed
qed

lemma or_default_Some_empty: "or_default (Some v) [] = v"
  by (simp add: or_default_def)

text \<open>
  Claim C9, as the code has it. On both paths the interval rule accepts a schedule
  value exactly when \<^verbatim>\<open>parseInt(value, 10)\<close> is a positive number: after leading white
  space and an optional plus sign the value starts with a run of decimal digits whose
  value is positive, and whatever follows the digits is ignored. So \<^verbatim>\<open>300000\<close> is
  accepted, and \<^verbatim>\<open>-5\<close>, \<^verbatim>\<open>0\<close> and \<^verbatim>\<open>abc\<close> are rejected.
\<close>

theorem interval_rule_accepts_leading_positive_integer:
  "(mcp_schedule_validate ps (margs\<lparr>m_schedule_type := ''interval'', m_schedule_value := v\<rparr>) = None)
       = leading_positive_integer v
   \<and> (oa_schedule_validate ps (oargs\<lparr>a_schedule_type := Some ''interval'', a_schedule_value := Some v\<rparr>) = None)
       = leading_positive_integer v
   \<and> \<not> interval_rejected ''300000''
   \<and> interval_rejected ''-5''
   \<and> interval_rejected ''0''
   \<and> interval_rejected ''abc''"
proof -
  have a: "(mcp_schedule_validate ps (margs\<lparr>m_schedule_type := ''interval'', m_schedule_value := v\<rparr>) = None)
       = (\<not> interval_rejected v)"
    by (simp add: mcp_schedule_validate_def)
  have b: "(oa_schedule_validate ps (oargs\<lparr>a_schedule_type := Some ''interval'', a_schedule_value := Some v\<rparr>) = None)
       = (\<not> interval_rejected v)"
    by (simp add: oa_schedule_validate_def oa_schedule_type_def oa_schedule_value_def
          or_default_Some_empty or_default_def)
  have c: "\<not> interval_rejected ''300000''"
    by (simp add: interval_rejected_def parseInt10_300000)
  have d: "interval_rejected ''-5''" "interval_rejected ''0''" "interval_rejected ''abc''"
    by (simp_all add: interval_rejected_def parseInt10_def is_js_whitespace_def is_digit_def
          digits_value_def digit_value_def)
  note a' = a[unfolded interval_accepted_iff]
  note b' = b[unfolded interval_accepted_iff]
  show ?thesis by (intro conjI a' b' c d)
qed

theorem interval_rule_accepts_trailing_text:
  "mcp_schedule_validate accept_all (example_mcp_args\<lparr>m_schedule_value := ''5abc''\<rparr>) = None
   \<and> oa_schedule_validate accept_all (example_oa_args\<lparr>a_schedule_value := Some ''5abc''\<rparr>) = None
   \<and> \<not> spec_positive_base10_integer ''5abc''"
proof -
  have p: "\<not> interval_rejected ''5abc''"
    by (simp add: interval_rejected_def parseInt10_def is_js_whitespace_def is_digit_def
          digits_value_def digit_value_def)
  have a: "mcp_schedule_validate accept_all (example_mcp_args\<lparr>m_schedule_value := ''5abc''\<rparr>) = None"
    using p by (simp add: mcp_schedule_validate_def example_mcp_args_def)
  have b: "oa_schedule_validate accept_all (example_oa_args\<lparr>a_schedule_value := Some ''5abc''\<rparr>) = None"
    using p by (simp add: oa_schedule_validate_def oa_schedule_type_def oa_schedule_value_def
          or_default_def example_oa_args_def)
  have c: "\<not> spec_positive_base10_integer ''5abc''"
    by (simp add: spec_positive_base10_integer_def is_digit_def)
  show ?thesis by (intro conjI a b c)
qed

subsection \<open>Schedule types outside the enumeration\<close>

text \<open>
  Claim C10, as the code has it. On the OpenAI path, a \<^verbatim>\<open>schedule_task\<close> call whose
  schedule type is a non-empty string other than \<^verbatim>\<open>cron\<close>, \<^verbatim>\<open>interval\<close> and \<^verbatim>\<open>once\<close>
  skips all three validation branches, whatever the parsers would say: the payload, with
  that schedule type and the schedule value as given, is written to the tasks directory
  and the success receipt is returned. (An empty schedule type is replaced by \<^verbatim>\<open>cron\<close>
  and validated as such.)
\<close>

theorem unrecognised_schedule_type_is_written_unvalidated:
  assumes "a_schedule_type oargs = Some st" and "st \<noteq> []"
      and "st \<noteq> ''cron''" and "st \<noteq> ''interval''" and "st \<noteq> ''once''"
  shows "oa_schedule_validate ps oargs = None
       \<and> oa_schedule_task ps ctx e oargs fs =
           (''Task scheduled ('' @ ipc_filename e @ ''): '' @ st @ '' - '' @ oa_schedule_value oargs,
            snd (writeIpcFile e TASKS_DIR (oa_schedule_data ctx e oargs) fs))
       \<and> readFileSync (snd (oa_schedule_task ps ctx e oargs fs)) (path_join TASKS_DIR (ipc_filename e))
           = Some (JSON_stringify (oa_schedule_data ctx e oargs))
       \<and> map_of (oa_schedule_data ctx e oargs) ''schedule_type'' = Some (JString st)
       \<and> map_of (oa_schedule_data ctx e oargs) ''schedule_value'' = Some (JString (oa_schedule_value oargs))"
proof -
  have st: "oa_schedule_type oargs = st" using assms by (simp add: oa_schedule_type_def or_default_def)
  have v: "oa_schedule_validate ps oargs = None"
    using assms st by (simp add: oa_schedule_validate_def Let_def)
  obtain name fs' where w: "writeIpcFile e TASKS_DIR (oa_schedule_data ctx e oargs) fs = (name, fs')"
    by (cases "writeIpcFile e TASKS_DIR (oa_schedule_data ctx e oargs) fs") auto
  from map_of_writeIpcFile[OF w] v w st show ?thesis
    by (simp add: oa_schedule_task_def readFileSync_def oa_schedule_data_def)
qed

theorem unrecognised_schedule_type_is_written_unvalidated_witness:
  "a_schedule_type (example_oa_args\<lparr>a_schedule_type := Some ''weekly''\<rparr>) = Some ''weekly''
   \<and> ''weekly'' \<noteq> [] \<and> ''weekly'' \<noteq> ''cron'' \<and> ''weekly'' \<noteq> ''interval'' \<and> ''weekly'' \<noteq> ''once''
   \<and> oa_schedule_validate reject_all (example_oa_args\<lparr>a_schedule_type := Some ''weekly''\<rparr>) = None
   \<and> readFileSync (snd (oa_schedule_task reject_all example_ctx example_env
                          (example_oa_args\<lparr>a_schedule_type := Some ''weekly''\<rparr>) []))
         (path_join TASKS_DIR (ipc_filename example_env))
       = Some (JSON_stringify (oa_schedule_data example_ctx example_env
                                 (example_oa_args\<lparr>a_schedule_type := Some ''weekly''\<rparr>)))
   \<and> map_of (oa_schedule_data example_ctx example_env (example_oa_args\<lparr>a_schedule_type := Some ''weekly''\<rparr>))
         ''schedule_type'' = Some (JString ''weekly'')"
proof -
  have h1: "a_schedule_type (example_oa_args\<lparr>a_schedule_type := Some ''weekly''\<rparr>) = Some ''weekly''"
    by simp
  have h2: "''weekly'' \<noteq> []" by simp
  have h3: "''weekly'' \<noteq> ''cron''" by simp
  have h4: "''weekly'' \<noteq> ''interval''" by simp
  have h5: "''weekly'' \<noteq> ''once''" by simp
  note t = unrecognised_schedule_type_is_written_unvalidated[OF h1 h2 h3 h4 h5,
      of reject_all example_ctx example_env "[]"]
  note t1 = t[THEN conjunct1]
  note t3 = t[THEN conjunct2, THEN conjunct2, THEN conjunct1]
  note t4 = t[THEN conjunct2, THEN conjunct2, THEN conjunct2, THEN conjunct1]
  show ?thesis by (intro conjI h1 h2 h3 h4 h5 t1 t3 t4)
qed

theorem empty_schedule_type_is_validated_as_cron:
  "a_schedule_type (example_oa_args\<lparr>a_schedule_type := Some [], a_schedule_value := Some ''soon''\<rparr>) = Some []
   \<and> [] \<noteq> ''cron'' \<and> [] \<noteq> ''interval'' \<and> [] \<noteq> ''once''
   \<and> snd (oa_schedule_task reject_all example_ctx example_env
            (example_oa_args\<lparr>a_schedule_type := Some [], a_schedule_value := Some ''soon''\<rparr>) example_fs)
       = example_fs
   \<and> prefix ''Invalid cron: ''
        (fst (oa_schedule_task reject_all example_ctx example_env
               (example_oa_args\<lparr>a_schedule_type := Some [], a_schedule_value := Some ''soon''\<rparr>) example_fs))"
  by (simp add: oa_schedule_task_def oa_schedule_validate_def oa_schedule_type_def
        oa_schedule_value_def or_default_def reject_all_def example_oa_args_def)

subsection \<open>The sandbox root\<close>

text \<open>
  Claim C2 says that a file-tool path that resolves outside \<^verbatim>\<open>/workspace/group\<close> fails
  before any file is touched. \<^verbatim>\<open>resolvePath\<close> compares the resolved path with the root
  as a string prefix, so a sibling directory whose name starts with \<^verbatim>\<open>group\<close> passes:
  \<^verbatim>\<open>../group-evil/secret.txt\<close>, and the same file named by its absolute path, resolve to
  \<^verbatim>\<open>/workspace/group-evil/secret.txt\<close>, which is not within the root, and \<^verbatim>\<open>Read\<close>
  returns its content. The traversal \<^verbatim>\<open>../../etc/passwd\<close> is refused.
\<close>

theorem resolvePath_accepts_sibling_of_root:
  "resolvePath ''../group-evil/secret.txt'' = Inr ''/workspace/group-evil/secret.txt''
   \<and> resolvePath ''/workspace/group-evil/secret.txt'' = Inr ''/workspace/group-evil/secret.txt''
   \<and> \<not> spec_within_root WORKSPACE_GROUP ''/workspace/group-evil/secret.txt''
   \<and> Read_execute (Some ''../group-evil/secret.txt'')
         [(''/workspace/group-evil/secret.txt'', ''top secret'')]
       = (Inr ''top secret'', [(''/workspace/group-evil/secret.txt'', ''top secret'')])
   \<and> resolvePath ''../../etc/passwd'' = Inl ''Path ../../etc/passwd resolves outside /workspace/group''"
  by code_simp

subsection \<open>Edit\<close>

text \<open>
  Claim C8 says that \<^verbatim>\<open>Edit\<close> puts the literal \<^verbatim>\<open>new_string\<close> in the place of the first
  occurrence of \<^verbatim>\<open>old_string\<close>. The executor calls \<^verbatim>\<open>content.replace(oldStr, newStr)\<close>,
  which reads dollar patterns in the replacement text: on the file \<^verbatim>\<open>price: X\<close>, replacing
  \<^verbatim>\<open>X\<close> by \<^verbatim>\<open>$$5\<close> writes \<^verbatim>\<open>price: $5\<close>, and replacing it by \<^verbatim>\<open>[$&]\<close> writes
  \<^verbatim>\<open>price: [X]\<close>.
\<close>

theorem Edit_reads_dollar_patterns:
  "js_includes ''price: X'' ''X''
   \<and> Edit_execute (Some ''a.txt'') (Some ''X'') (Some ''$$5'') [(''/workspace/group/a.txt'', ''price: X'')]
       = (Inr ''Edited a.txt'', [(''/workspace/group/a.txt'', ''price: $5'')])
   \<and> Edit_execute (Some ''a.txt'') (Some ''X'') (Some ''[$&]'') [(''/workspace/group/a.txt'', ''price: X'')]
       = (Inr ''Edited a.txt'', [(''/workspace/group/a.txt'', ''price: [X]'')])"
  by code_simp

subsection \<open>Grep\<close>

text \<open>
  Claim C7 says that \<^verbatim>\<open>Grep\<close> reports every matching line of every text file under
  the root. With no \<^verbatim>\<open>path\<close> argument the files are those that \<^verbatim>\<open>simpleGlob\<close> gives
  for \<^verbatim>\<open>**/*\<close>, whose regular expression is \<^verbatim>\<open>^.[^/]*/[^/]*$\<close>: a file directly in the
  root is not searched. The regular expression of the search has the \<^verbatim>\<open>g\<close> flag, so
  \<^verbatim>\<open>test\<close> starts where the match in the line before ended: after \<^verbatim>\<open>xxfoo\<close> the line
  \<^verbatim>\<open>foo\<close> is not found. On the two files below, three lines match \<^verbatim>\<open>foo\<close> and one is
  reported.
\<close>

theorem Grep_misses_matching_lines:
  "glob_regex_source ''**/*'' = ''^.[^/]*/[^/]*$''
   \<and> simpleGlob [(''/workspace/group/a.txt'', ''foo''),
                  (''/workspace/group/sub/b.txt'', ''xxfoo'' @ [CHR 0x0A] @ ''foo'')]
         ''**/*'' WORKSPACE_GROUP
       = Some [''/workspace/group/sub/b.txt'']
   \<and> Grep_execute (Some ''foo'') None
         [(''/workspace/group/a.txt'', ''foo''),
          (''/workspace/group/sub/b.txt'', ''xxfoo'' @ [CHR 0x0A] @ ''foo'')]
       = Some ''sub/b.txt:1: xxfoo''"
  by code_simp

subsection \<open>The session loop\<close>

lemma round_lines_Suc: "round_lines (Suc k) = round_lines k @ [round_line (Suc k)]"
  by (simp add: round_lines_def)

lemma round_lines_0: "round_lines 0 = []"
  by (simp add: round_lines_def)

lemma tool_rounds_0: "tool_rounds ep executorMap st 0"
  by (simp add: tool_rounds_def)

lemma tool_rounds_Suc:
  "tool_rounds ep executorMap st (Suc k) =
     (tool_rounds ep executorMap st k \<and> requests_tools ep executorMap st (Suc k))"
  by (auto simp: tool_rounds_def le_Suc_eq)

lemma requests_tools_Reply:
  assumes "requests_tools ep executorMap st (Suc k)"
  obtains msg where "ep (Suc k) (fst (after_rounds ep executorMap k st)) = Reply msg"
    and "am_tool_calls msg \<noteq> []"
  using assms by (auto simp: requests_tools_def split: completion.splits)

text \<open>The loop, entered at round \<open>j\<close> after \<open>j\<close> rounds of tool calls, ends as
  \<open>exit_after\<close> says for the number \<open>k\<close> of rounds that are answered with tool calls
  before the first that is not, or the budget.\<close>

lemma rounds_loop_from:
  assumes "tool_rounds ep executorMap st j" and "j \<le> maxRounds"
  shows "\<exists>k. j \<le> k \<and> k \<le> maxRounds \<and> tool_rounds ep executorMap st k
           \<and> (k < maxRounds \<longrightarrow> \<not> requests_tools ep executorMap st (Suc k))
           \<and> rounds_loop ep executorMap j (fst (after_rounds ep executorMap j st))
                (snd (after_rounds ep executorMap j st)) (lg @ round_lines j)
              = exit_after ep executorMap st lg k"
  using assms
proof (induction "maxRounds - j" arbitrary: j)
  case 0
  then have j: "j = maxRounds" by simp
  have "rounds_loop ep executorMap j (fst (after_rounds ep executorMap j st))
          (snd (after_rounds ep executorMap j st)) (lg @ round_lines j)
        = exit_after ep executorMap st lg j"
    by (subst rounds_loop.simps) (simp add: j exit_after_def)
  with "0.prems" j show ?case by auto
next
  case (Suc d)
  then have lt: "j < maxRounds" by simp
  show ?case
  proof (cases "requests_tools ep executorMap st (Suc j)")
    case True
    then obtain msg where msg: "ep (Suc j) (fst (after_rounds ep executorMap j st)) = Reply msg"
      "am_tool_calls msg \<noteq> []"
      by (rule requests_tools_Reply)
    have step: "rounds_loop ep executorMap j (fst (after_rounds ep executorMap j st))
          (snd (after_rounds ep executorMap j st)) (lg @ round_lines j)
        = rounds_loop ep executorMap (Suc j) (fst (after_rounds ep executorMap (Suc j) st))
          (snd (after_rounds ep executorMap (Suc j) st)) (lg @ round_lines (Suc j))"
      using lt msg
      by (subst rounds_loop.simps) (simp add: one_round_def round_lines_Suc split: prod.splits)
    have tr: "tool_rounds ep executorMap st (Suc j)"
      using Suc.prems(1) True by (simp add: tool_rounds_Suc)
    have d: "d = maxRounds - Suc j" using Suc.hyps(2) by simp
    from Suc.hyps(1)[OF d tr] lt
    obtain k where k: "Suc j \<le> k" "k \<le> maxRounds" "tool_rounds ep executorMap st k"
      "k < maxRounds \<longrightarrow> \<not> requests_tools ep executorMap st (Suc k)"
      "rounds_loop ep executorMap (Suc j) (fst (after_rounds ep executorMap (Suc j) st))
          (snd (after_rounds ep executorMap (Suc j) st)) (lg @ round_lines (Suc j))
        = exit_after ep executorMap st lg k"
      by auto
    from k step show ?thesis by (intro exI[of _ k]) simp
  next
    case False
    have "rounds_loop ep executorMap j (fst (after_rounds ep executorMap j st))
          (snd (after_rounds ep executorMap j st)) (lg @ round_lines j)
        = exit_after ep executorMap st lg j"
      using lt False
      by (subst rounds_loop.simps)
         (simp add: exit_after_def requests_tools_def round_lines_Suc split: completion.splits)
    with Suc.prems lt False show ?thesis by (intro exI[of _ j]) simp
  qed
qed

lemma rounds_loop_exit:
  "\<exists>k. k \<le> maxRounds \<and> tool_rounds ep executorMap (ms, fs) k
       \<and> (k < maxRounds \<longrightarrow> \<not> requests_tools ep executorMap (ms, fs) (Suc k))
       \<and> rounds_loop ep executorMap 0 ms fs lg = exit_after ep executorMap (ms, fs) lg k"
  using rounds_loop_from[where j = 0 and ep = ep and executorMap = executorMap
      and st = "(ms, fs)" and lg = lg, OF tool_rounds_0]
  by (auto simp: round_lines_0)

lemma answers_requests_tools:
  assumes "answers_with_tool_calls ep k" and "n \<le> k"
  shows "requests_tools ep executorMap st n"
proof -
  from assms obtain msg where
    "ep n (fst (after_rounds ep executorMap (n - 1) st)) = Reply msg" "am_tool_calls msg \<noteq> []"
    unfolding answers_with_tool_calls_def by blast
  then show ?thesis by (simp add: requests_tools_def)
qed

lemma rounds_loop_budget:
  assumes "answers_with_tool_calls ep maxRounds"
  shows "rounds_loop ep executorMap 0 ms fs lg
         = LoopDone None maxRounds (fst (after_rounds ep executorMap maxRounds (ms, fs)))
             (snd (after_rounds ep executorMap maxRounds (ms, fs))) (lg @ round_lines maxRounds)"
proof -
  from rounds_loop_exit[of ep executorMap ms fs lg]
  obtain k where k: "k \<le> maxRounds"
    "k < maxRounds \<longrightarrow> \<not> requests_tools ep executorMap (ms, fs) (Suc k)"
    "rounds_loop ep executorMap 0 ms fs lg = exit_after ep executorMap (ms, fs) lg k"
    by auto
  have "k = maxRounds"
  proof (rule ccontr)
    assume "k \<noteq> maxRounds"
    with k(1) have lt: "k < maxRounds" by simp
    then have "requests_tools ep executorMap (ms, fs) (Suc k)"
      using answers_requests_tools[OF assms, of "Suc k"] by simp
    with k(2) lt show False by simp
  qed
  with k(3) show ?thesis by (simp add: exit_after_def)
qed

lemma run_tool_calls_assistants:
  "filter is_assistant (fst (run_tool_calls executorMap tcs ms fs)) = filter is_assistant ms"
  by (induction tcs arbitrary: ms fs) (auto split: prod.splits)

lemma after_rounds_assistants:
  "tool_rounds ep executorMap st k \<Longrightarrow>
     length (filter is_assistant (fst (after_rounds ep executorMap k st)))
       = length (filter is_assistant (fst st)) + k"
proof (induction k)
  case 0
  then show ?case by simp
next
  case (Suc k)
  then have tr: "tool_rounds ep executorMap st k" and rq: "requests_tools ep executorMap st (Suc k)"
    by (simp_all add: tool_rounds_Suc)
  from rq obtain msg where msg: "ep (Suc k) (fst (after_rounds ep executorMap k st)) = Reply msg"
    by (rule requests_tools_Reply)
  show ?case using Suc.IH[OF tr] msg
    by (simp add: one_round_def run_tool_calls_assistants)
qed

lemma run_configured:
  assumes "configured pv"
  shows "runCustomProvider pv cd fault ep executorMap input fs =
     (case rounds_loop ep executorMap 0 (first_messages pv cd input fs) fs (first_log pv cd input fs) of
        LoopNoMessage round ms fs' lg \<Rightarrow>
          \<lparr>rr_output = error_output (Some (session_of pv input)) ''No message in completion response'',
           rr_rethrown = None, rr_round = round, rr_messages = ms, rr_fs = fs', rr_log = lg\<rparr>
      | LoopThrew err round ms fs' lg \<Rightarrow>
          \<lparr>rr_output = error_output (Some (session_of pv input)) err,
           rr_rethrown = Some err, rr_round = round, rr_messages = ms, rr_fs = fs',
           rr_log = lg @ [''Custom provider error: '' @ err]\<rparr>
      | LoopDone result round ms fs' lg \<Rightarrow>
          if result = None \<and> round \<ge> maxRounds then
            \<lparr>rr_output = error_output (Some (session_of pv input)) ''Max tool rounds exceeded'',
             rr_rethrown = None, rr_round = round, rr_messages = ms, rr_fs = fs', rr_log = lg\<rparr>
          else
            (case saveSession cd fault fs' (session_of pv input) ms of
               Inl err \<Rightarrow>
                 \<lparr>rr_output = error_output (Some (session_of pv input)) err,
                  rr_rethrown = Some err, rr_round = round, rr_messages = ms, rr_fs = fs',
                  rr_log = lg @ [''Custom provider error: '' @ err]\<rparr>
             | Inr (fs'', save_lines) \<Rightarrow>
                 \<lparr>rr_output = \<lparr>co_status = Success, co_result = result,
                                co_newSessionId = Some (session_of pv input), co_error = None\<rparr>,
                  rr_rethrown = None, rr_round = round, rr_messages = ms, rr_fs = fs'',
                  rr_log = lg @ save_lines @ [''Custom provider completed successfully'']\<rparr>))"
  using assms
  unfolding runCustomProvider_def Let_def configured_def first_messages_def first_log_def
    session_of_def
  by simp

lemma run_budget:
  assumes "configured pv" and "answers_with_tool_calls ep maxRounds"
  shows "runCustomProvider pv cd fault ep executorMap input fs =
           \<lparr>rr_output = error_output (Some (session_of pv input)) ''Max tool rounds exceeded'',
            rr_rethrown = None, rr_round = maxRounds,
            rr_messages = fst (after_rounds ep executorMap maxRounds (first_messages pv cd input fs, fs)),
            rr_fs = snd (after_rounds ep executorMap maxRounds (first_messages pv cd input fs, fs)),
            rr_log = first_log pv cd input fs @ round_lines maxRounds\<rparr>"
  unfolding run_configured[OF assms(1)] rounds_loop_budget[OF assms(2)] by simp

text \<open>
  Claim C5. With the provider configured and an endpoint that answers each of the
  rounds 1 to 30 with tool calls and never with plain text (nothing is assumed of a
  round 31), \<^verbatim>\<open>runCustomProvider\<close> returns, with the error output
  \<^verbatim>\<open>Max tool rounds exceeded\<close>, no result and nothing rethrown. It has then performed
  exactly 30 rounds: the round counter stands at 30; the history and the file system
  are those that 30 rounds of endpoint call and tool calls give, one after the other;
  the history holds exactly 30 assistant messages more than at the start; and the log
  holds the lines of the rounds 1 to 30 and none after them.
\<close>

theorem round_budget_exhausted_after_30:
  assumes "configured pv" and "answers_with_tool_calls ep 30"
      and "r = runCustomProvider pv cd fault ep executorMap input fs"
  shows "co_status (rr_output r) = Error
       \<and> co_error (rr_output r) = Some ''Max tool rounds exceeded''
       \<and> co_result (rr_output r) = None
       \<and> co_newSessionId (rr_output r) = Some (session_of pv input)
       \<and> rr_rethrown r = None
       \<and> rr_round r = 30
       \<and> (rr_messages r, rr_fs r) = after_rounds ep executorMap 30 (first_messages pv cd input fs, fs)
       \<and> length (filter is_assistant (rr_messages r))
           = length (filter is_assistant (first_messages pv cd input fs)) + 30
       \<and> rr_log r = first_log pv cd input fs @ round_lines 30"
proof -
  have a: "answers_with_tool_calls ep maxRounds" using assms(2) by (simp add: maxRounds_def)
  note run = run_budget[OF assms(1) a, of cd fault executorMap input fs, folded assms(3)]
  have tr: "tool_rounds ep executorMap (first_messages pv cd input fs, fs) 30"
    unfolding tool_rounds_def using answers_requests_tools[OF assms(2)] by blast
  have cnt: "length (filter is_assistant (fst (after_rounds ep executorMap 30 (first_messages pv cd input fs, fs))))
           = length (filter is_assistant (first_messages pv cd input fs)) + 30"
    using after_rounds_assistants[OF tr] by simp
  show ?thesis
    unfolding run using cnt by (simp add: error_output_def maxRounds_def)
qed

lemma example_provider_configured: "configured example_provider"
  by (simp add: configured_def example_provider_def or_default_def)

lemma looping_endpoint_answers: "answers_with_tool_calls looping_endpoint 30"
  by (simp add: answers_with_tool_calls_def looping_endpoint_def read_call_def)

theorem round_budget_exhausted_after_30_witness:
  "configured example_provider
   \<and> answers_with_tool_calls looping_endpoint 30
   \<and> looping_endpoint 31 [] = Throws ''round 31''
   \<and> co_error (rr_output (runCustomProvider example_provider example_codec NoFault looping_endpoint
                  example_tools example_input example_fs)) = Some ''Max tool rounds exceeded''
   \<and> rr_round (runCustomProvider example_provider example_codec NoFault looping_endpoint
                  example_tools example_input example_fs) = 30
   \<and> rr_log (runCustomProvider example_provider example_codec NoFault looping_endpoint
                  example_tools example_input example_fs)
       = first_log example_provider example_codec example_input example_fs @ round_lines 30"
proof -
  note t = round_budget_exhausted_after_30[OF example_provider_configured looping_endpoint_answers refl,
      of example_codec NoFault example_tools example_input example_fs]
  have th: "looping_endpoint 31 [] = Throws ''round 31''" by (simp add: looping_endpoint_def)
  note t2 = t[THEN conjunct2, THEN conjunct1]
  note t6 = t[THEN conjunct2, THEN conjunct2, THEN conjunct2, THEN conjunct2, THEN conjunct2,
      THEN conjunct1]
  note t9 = t[THEN conjunct2, THEN conjunct2, THEN conjunct2, THEN conjunct2, THEN conjunct2,
      THEN conjunct2, THEN conjunct2, THEN conjunct2]
  show ?thesis
    by (intro conjI example_provider_configured looping_endpoint_answers th t2 t6 t9)
qed

subsection \<open>The session file\<close>

lemma run_tool_calls_leave:
  assumes "\<And>tc fs0. tc \<in> set tcs \<Longrightarrow>
             readFileSync (snd (run_tool_call executorMap tc fs0)) p = readFileSync fs0 p"
  shows "readFileSync (snd (run_tool_calls executorMap tcs ms fs)) p = readFileSync fs p"
  using assms
proof (induction tcs arbitrary: ms fs)
  case Nil
  then show ?case by simp
next
  case (Cons tc tcs)
  obtain c fs1 where s: "run_tool_call executorMap tc fs = (c, fs1)"
    by (cases "run_tool_call executorMap tc fs") auto
  have one: "readFileSync fs1 p = readFileSync fs p"
    using Cons.prems[of tc fs] s by simp
  have rest: "readFileSync (snd (run_tool_calls executorMap tcs (ms @ [ToolMessage (tc_id tc) c]) fs1)) p
                = readFileSync fs1 p"
    by (rule Cons.IH) (simp add: Cons.prems)
  from s one rest show ?case by simp
qed

lemma after_rounds_leave:
  assumes "calls_leave ep executorMap p"
  shows "readFileSync (snd (after_rounds ep executorMap k st)) p = readFileSync (snd st) p"
proof (induction k)
  case 0
  then show ?case by simp
next
  case (Suc k)
  show ?case
  proof (cases "ep (Suc k) (fst (after_rounds ep executorMap k st))")
    case (Reply msg)
    have "readFileSync (snd (run_tool_calls executorMap (am_tool_calls msg)
             (fst (after_rounds ep executorMap k st) @ [AssistantMessage msg])
             (snd (after_rounds ep executorMap k st)))) p
          = readFileSync (snd (after_rounds ep executorMap k st)) p"
    proof (rule run_tool_calls_leave)
      fix tc fs0
      assume "tc \<in> set (am_tool_calls msg)"
      with assms Reply show "readFileSync (snd (run_tool_call executorMap tc fs0)) p = readFileSync fs0 p"
        unfolding calls_leave_def by blast
    qed
    with Reply Suc.IH show ?thesis by (simp add: one_round_def)
  next
    case (Throws err)
    with Suc.IH show ?thesis by (simp add: one_round_def)
  next
    case NoMessage
    with Suc.IH show ?thesis by (simp add: one_round_def)
  qed
qed

text \<open>The two ways a run ends, for the number \<open>k\<close> of rounds answered with tool calls.\<close>

lemma run_ends:
  assumes "configured pv"
  shows "\<exists>k. k \<le> 30 \<and> tool_rounds ep executorMap (first_messages pv cd input fs, fs) k \<and>
      ((co_status (rr_output (runCustomProvider pv cd fault ep executorMap input fs)) = Error
        \<and> rr_fs (runCustomProvider pv cd fault ep executorMap input fs)
            = snd (after_rounds ep executorMap k (first_messages pv cd input fs, fs)))
       \<or> (\<exists>msg lines. k < 30
            \<and> ep (k + 1) (fst (after_rounds ep executorMap k (first_messages pv cd input fs, fs))) = Reply msg
            \<and> am_tool_calls msg = []
            \<and> saveSession cd fault (snd (after_rounds ep executorMap k (first_messages pv cd input fs, fs)))
                 (session_of pv input)
                 (fst (after_rounds ep executorMap k (first_messages pv cd input fs, fs)) @ [AssistantMessage msg])
               = Inr (rr_fs (runCustomProvider pv cd fault ep executorMap input fs), lines)
            \<and> set lines \<subseteq> set (rr_log (runCustomProvider pv cd fault ep executorMap input fs))
            \<and> co_status (rr_output (runCustomProvider pv cd fault ep executorMap input fs)) = Success
            \<and> co_result (rr_output (runCustomProvider pv cd fault ep executorMap input fs))
                = text_or_null (content_text (am_content msg))
            \<and> rr_messages (runCustomProvider pv cd fault ep executorMap input fs)
                = fst (after_rounds ep executorMap k (first_messages pv cd input fs, fs)) @ [AssistantMessage msg]))"
proof -
  define st where "st = (first_messages pv cd input fs, fs)"
  define r where "r = runCustomProvider pv cd fault ep executorMap input fs"
  from rounds_loop_exit[of ep executorMap "first_messages pv cd input fs" fs "first_log pv cd input fs"]
  obtain k where k: "k \<le> maxRounds" "tool_rounds ep executorMap st k"
    "k < maxRounds \<longrightarrow> \<not> requests_tools ep executorMap st (Suc k)"
    and loop: "rounds_loop ep executorMap 0 (first_messages pv cd input fs) fs (first_log pv cd input fs)
       = exit_after ep executorMap st (first_log pv cd input fs) k"
    unfolding st_def by auto
  note run = run_configured[OF assms, of cd fault ep executorMap input fs, unfolded loop, folded r_def]
  have k30: "k \<le> 30" using k(1) by (simp add: maxRounds_def)
  have "(co_status (rr_output r) = Error \<and> rr_fs r = snd (after_rounds ep executorMap k st))
       \<or> (\<exists>msg lines. k < 30
            \<and> ep (k + 1) (fst (after_rounds ep executorMap k st)) = Reply msg
            \<and> am_tool_calls msg = []
            \<and> saveSession cd fault (snd (after_rounds ep executorMap k st)) (session_of pv input)
                 (fst (after_rounds ep executorMap k st) @ [AssistantMessage msg])
               = Inr (rr_fs r, lines)
            \<and> set lines \<subseteq> set (rr_log r)
            \<and> co_status (rr_output r) = Success
            \<and> co_result (rr_output r) = text_or_null (content_text (am_content msg))
            \<and> rr_messages r = fst (after_rounds ep executorMap k st) @ [AssistantMessage msg])"
  proof (cases "maxRounds \<le> k")
    case True
    then show ?thesis unfolding run by (simp add: exit_after_def error_output_def)
  next
    case False
    then have lt: "k < maxRounds" by simp
    with k(3) have nr: "\<not> requests_tools ep executorMap st (Suc k)" by simp
    show ?thesis
    proof (cases "ep (k + 1) (fst (after_rounds ep executorMap k st))")
      case (Throws err)
      with False show ?thesis unfolding run by (simp add: exit_after_def error_output_def)
    next
      case NoMessage
      with False show ?thesis unfolding run by (simp add: exit_after_def error_output_def)
    next
      case (Reply msg)
      with nr have nt: "am_tool_calls msg = []" by (simp add: requests_tools_def)
      show ?thesis
      proof (cases "text_or_null (content_text (am_content msg)) = None \<and> maxRounds \<le> k + 1")
        case True
        with False Reply show ?thesis unfolding run by (simp add: exit_after_def error_output_def)
      next
        case ok: False
        show ?thesis
        proof (cases "saveSession cd fault (snd (after_rounds ep executorMap k st)) (session_of pv input)
                 (fst (after_rounds ep executorMap k st) @ [AssistantMessage msg])")
          case (Inl err)
          with False Reply ok show ?thesis unfolding run
            by (simp add: exit_after_def error_output_def)
        next
          case (Inr saved)
          obtain fs'' lines where saved: "saved = (fs'', lines)" by (cases saved) auto
          from lt have "k < 30" by (simp add: maxRounds_def)
          with False Reply ok Inr saved nt show ?thesis unfolding run
            by (auto simp: exit_after_def)
        qed
      qed
    qed
  qed
  with k30 k(2) show ?thesis unfolding st_def r_def by blast
qed

text \<open>
  Claim C6, as the code has it. \<^verbatim>\<open>runCustomProvider\<close> itself writes the session file
  only when it ends with the success output. When it ends with an error output (the
  round budget is exhausted, the completion call throws, the response has no message,
  the provider is not configured, \<^verbatim>\<open>mkdirSync\<close> fails), the file system is exactly the
  one that the tool calls of the rounds performed have left; so the session file is
  what it was before the run if no tool call that the endpoint may request changes it.
  The session directory lies below the sandbox root, and a tool call can change it. When
  the run ends with the success output, after \<open>k\<close> rounds of tool calls and a message
  without tool calls, the history in memory is the start history, every turn of those
  rounds in order, and that last message; \<^verbatim>\<open>mkdirSync\<close> has not failed; if the write
  succeeds the session file holds exactly that history, and if the write fails the file
  system is as the tool calls left it, the failure is in the log, and success is
  reported all the same.
\<close>

theorem session_written_only_by_success:
  assumes "r = runCustomProvider pv cd fault ep executorMap input fs"
      and "st = (first_messages pv cd input fs, fs)"
      and "p = session_path (session_of pv input)"
  shows "(co_status (rr_output r) = Error \<longrightarrow>
            (\<exists>k. k \<le> 30 \<and> tool_rounds ep executorMap st k
                 \<and> rr_fs r = snd (after_rounds ep executorMap k st))
            \<and> (calls_leave ep executorMap p \<longrightarrow> readFileSync (rr_fs r) p = readFileSync fs p))
       \<and> (co_status (rr_output r) = Success \<longrightarrow>
            (\<exists>k msg. k < 30 \<and> tool_rounds ep executorMap st k
               \<and> ep (k + 1) (fst (after_rounds ep executorMap k st)) = Reply msg
               \<and> am_tool_calls msg = []
               \<and> rr_messages r = fst (after_rounds ep executorMap k st) @ [AssistantMessage msg]
               \<and> co_result (rr_output r) = text_or_null (content_text (am_content msg))
               \<and> (\<forall>err. fault \<noteq> MkdirThrows err)
               \<and> (fault = NoFault \<longrightarrow>
                    rr_fs r = writeFileSync (snd (after_rounds ep executorMap k st)) p
                                (encode_session cd (rr_messages r)))
               \<and> (\<forall>err. fault = WriteThrows err \<longrightarrow>
                    rr_fs r = snd (after_rounds ep executorMap k st)
                    \<and> ''Failed to save session '' @ session_of pv input @ '': '' @ err \<in> set (rr_log r))))"
proof (cases "configured pv")
  case False
  then have r0: "r = \<lparr>rr_output = error_output None config_error,
         rr_rethrown = None, rr_round = 0, rr_messages = [], rr_fs = fs, rr_log = config_log pv\<rparr>"
    unfolding assms(1) by (auto simp: runCustomProvider_def configured_def)
  have "tool_rounds ep executorMap st 0 \<and> rr_fs r = snd (after_rounds ep executorMap 0 st)"
    using r0 by (simp add: tool_rounds_0 assms(2))
  then have "\<exists>k. k \<le> 30 \<and> tool_rounds ep executorMap st k
                 \<and> rr_fs r = snd (after_rounds ep executorMap k st)"
    by (intro exI[of _ 0]) simp
  then show ?thesis using r0 by (simp add: error_output_def)
next
  case True
  from run_ends[OF True, of ep executorMap cd input fs fault, folded assms(1) assms(2)]
  obtain k where k: "k \<le> 30" "tool_rounds ep executorMap st k"
    and ends: "(co_status (rr_output r) = Error \<and> rr_fs r = snd (after_rounds ep executorMap k st))
       \<or> (\<exists>msg lines. k < 30
            \<and> ep (k + 1) (fst (after_rounds ep executorMap k st)) = Reply msg
            \<and> am_tool_calls msg = []
            \<and> saveSession cd fault (snd (after_rounds ep executorMap k st)) (session_of pv input)
                 (fst (after_rounds ep executorMap k st) @ [AssistantMessage msg])
               = Inr (rr_fs r, lines)
            \<and> set lines \<subseteq> set (rr_log r)
            \<and> co_status (rr_output r) = Success
            \<and> co_result (rr_output r) = text_or_null (content_text (am_content msg))
            \<and> rr_messages r = fst (after_rounds ep executorMap k st) @ [AssistantMessage msg])"
    by blast
  from ends show ?thesis
  proof
    assume e: "co_status (rr_output r) = Error \<and> rr_fs r = snd (after_rounds ep executorMap k st)"
    have lv: "readFileSync (rr_fs r) p = readFileSync fs p" if "calls_leave ep executorMap p"
      using after_rounds_leave[OF that, of k st] e by (simp add: assms(2))
    from e k lv show ?thesis by auto
  next
    assume "\<exists>msg lines. k < 30
            \<and> ep (k + 1) (fst (after_rounds ep executorMap k st)) = Reply msg
            \<and> am_tool_calls msg = []
            \<and> saveSession cd fault (snd (after_rounds ep executorMap k st)) (session_of pv input)
                 (fst (after_rounds ep executorMap k st) @ [AssistantMessage msg])
               = Inr (rr_fs r, lines)
            \<and> set lines \<subseteq> set (rr_log r)
            \<and> co_status (rr_output r) = Success
            \<and> co_result (rr_output r) = text_or_null (content_text (am_content msg))
            \<and> rr_messages r = fst (after_rounds ep executorMap k st) @ [AssistantMessage msg]"
    then obtain msg lines where s: "k < 30"
      "ep (k + 1) (fst (after_rounds ep executorMap k st)) = Reply msg"
      "am_tool_calls msg = []"
      "saveSession cd fault (snd (after_rounds ep executorMap k st)) (session_of pv input)
                 (fst (after_rounds ep executorMap k st) @ [AssistantMessage msg])
               = Inr (rr_fs r, lines)"
      "set lines \<subseteq> set (rr_log r)"
      "co_status (rr_output r) = Success"
      "co_result (rr_output r) = text_or_null (content_text (am_content msg))"
      "rr_messages r = fst (after_rounds ep executorMap k st) @ [AssistantMessage msg]"
      by blast
    have nomk: "\<forall>err. fault \<noteq> MkdirThrows err"
      using s(4) by (auto simp: saveSession_def)
    have nf: "rr_fs r = writeFileSync (snd (after_rounds ep executorMap k st)) p
                                (encode_session cd (rr_messages r))" if "fault = NoFault"
      using s(4) s(8) that by (simp add: saveSession_def assms(3))
    have wf: "rr_fs r = snd (after_rounds ep executorMap k st)
                    \<and> ''Failed to save session '' @ session_of pv input @ '': '' @ err \<in> set (rr_log r)"
      if "fault = WriteThrows err" for err
      using s(4) s(5) that by (auto simp: saveSession_def)
    have "\<exists>k msg. k < 30 \<and> tool_rounds ep executorMap st k
               \<and> ep (k + 1) (fst (after_rounds ep executorMap k st)) = Reply msg
               \<and> am_tool_calls msg = []
               \<and> rr_messages r = fst (after_rounds ep executorMap k st) @ [AssistantMessage msg]
               \<and> co_result (rr_output r) = text_or_null (content_text (am_content msg))
               \<and> (\<forall>err. fault \<noteq> MkdirThrows err)
               \<and> (fault = NoFault \<longrightarrow>
                    rr_fs r = writeFileSync (snd (after_rounds ep executorMap k st)) p
                                (encode_session cd (rr_messages r)))
               \<and> (\<forall>err. fault = WriteThrows err \<longrightarrow>
                    rr_fs r = snd (after_rounds ep executorMap k st)
                    \<and> ''Failed to save session '' @ session_of pv input @ '': '' @ err \<in> set (rr_log r))"
      using s(1,2,3,7,8) k(2) nomk nf wf by (intro exI[of _ k] exI[of _ msg]) simp
    with s(6) show ?thesis by simp
  qed
qed

lemma looping_endpoint_calls_leave: "calls_leave looping_endpoint example_tools p"
  by (auto simp: calls_leave_def looping_endpoint_def read_call_def run_tool_call_def
        example_tools_def getExecutorMap_def builtin_executor_def Read_execute_def
        split: if_splits sum.splits option.splits)

lemma looping_run_fails:
  "co_status (rr_output (runCustomProvider example_provider example_codec NoFault looping_endpoint
                  example_tools example_input example_fs)) = Error"
  using run_budget[OF example_provider_configured
      looping_endpoint_answers[folded maxRounds_def], of example_codec NoFault example_tools
      example_input example_fs]
  by (simp add: error_output_def)

lemma answering_run_succeeds:
  "co_status (rr_output (runCustomProvider example_provider example_codec NoFault answering_endpoint
                  example_tools example_input example_fs)) = Success"
  by code_simp

theorem session_written_only_by_success_witness:
  "calls_leave looping_endpoint example_tools (session_path (session_of example_provider example_input))
   \<and> co_status (rr_output (runCustomProvider example_provider example_codec NoFault looping_endpoint
                  example_tools example_input example_fs)) = Error
   \<and> readFileSync (rr_fs (runCustomProvider example_provider example_codec NoFault looping_endpoint
                  example_tools example_input example_fs))
         (session_path (session_of example_provider example_input))
       = readFileSync example_fs (session_path (session_of example_provider example_input))
   \<and> co_status (rr_output (runCustomProvider example_provider example_codec NoFault answering_endpoint
                  example_tools example_input example_fs)) = Success
   \<and> readFileSync (rr_fs (runCustomProvider example_provider example_codec NoFault answering_endpoint
                  example_tools example_input example_fs))
         (session_path (session_of example_provider example_input))
       = Some (encode_session example_codec
                 (rr_messages (runCustomProvider example_provider example_codec NoFault answering_endpoint
                    example_tools example_input example_fs)))"
proof -
  note lv = looping_endpoint_calls_leave[of "session_path (session_of example_provider example_input)"]
  note t1 = session_written_only_by_success[OF refl refl refl,
      of example_provider example_codec NoFault looping_endpoint example_tools example_input example_fs]
  note t2 = session_written_only_by_success[OF refl refl refl,
      of example_provider example_codec NoFault answering_endpoint example_tools example_input example_fs]
  note a = t1[THEN conjunct1, THEN mp, OF looping_run_fails, THEN conjunct2, THEN mp, OF lv]
  from t2[THEN conjunct2, THEN mp, OF answering_run_succeeds]
  obtain k where "rr_fs (runCustomProvider example_provider example_codec NoFault answering_endpoint
                  example_tools example_input example_fs)
       = writeFileSync (snd (after_rounds answering_endpoint example_tools k
             (first_messages example_provider example_codec example_input example_fs, example_fs)))
           (session_path (session_of example_provider example_input))
           (encode_session example_codec
              (rr_messages (runCustomProvider example_provider example_codec NoFault answering_endpoint
                 example_tools example_input example_fs)))"
    by (elim exE conjE) simp
  then have b: "readFileSync (rr_fs (runCustomProvider example_provider example_codec NoFault answering_endpoint
                  example_tools example_input example_fs))
         (session_path (session_of example_provider example_input))
       = Some (encode_session example_codec
                 (rr_messages (runCustomProvider example_provider example_codec NoFault answering_endpoint
                    example_tools example_input example_fs)))"
    by (simp add: readFileSync_def writeFileSync_def update_conv')
  show ?thesis by (intro conjI lv looping_run_fails a answering_run_succeeds b)
qed

text \<open>
  A run that ends with \<^verbatim>\<open>Max tool rounds exceeded\<close> and whose session file is not what
  it was: the endpoint asks in every round for the \<^verbatim>\<open>Write\<close> tool to write
  \<^verbatim>\<open>.sessions/s1.json\<close>, the file of the session the run uses.
\<close>

theorem aborted_run_changes_session_file:
  "co_status (rr_output (runCustomProvider example_provider example_codec NoFault overwriting_endpoint
                  example_tools example_input example_fs)) = Error
   \<and> co_error (rr_output (runCustomProvider example_provider example_codec NoFault overwriting_endpoint
                  example_tools example_input example_fs)) = Some ''Max tool rounds exceeded''
   \<and> session_of example_provider example_input = ''s1''
   \<and> readFileSync example_fs (session_path ''s1'') = Some ''earlier''
   \<and> readFileSync (rr_fs (runCustomProvider example_provider example_codec NoFault overwriting_endpoint
                  example_tools example_input example_fs)) (session_path ''s1'') = Some ''[]''"
  by code_simp

subsection \<open>The atomic writer\<close>

lemma appends_run:
  "foldl apply_op (AList.update t c0 fs) (map (OpAppend t) cs) = AList.update t (c0 @ concat cs) fs"
proof (induction cs arbitrary: c0)
  case Nil
  then show ?case by simp
next
  case (Cons c cs)
  have "apply_op (AList.update t c0 fs) (OpAppend t c) = AList.update t (c0 @ c) fs"
    by (simp add: update_conv' update_last)
  then show ?case using Cons.IH[of "c0 @ c"] by simp
qed

lemma writeFileSync_ops_run:
  "run_ops fs (writeFileSync_ops t cs) = writeFileSync fs t (concat cs)"
  using appends_run[of t "[]" fs cs]
  by (simp add: run_ops_def writeFileSync_ops_def writeFileSync_def)

lemma take_writeFileSync_ops:
  "take (Suc k) (writeFileSync_ops t cs) = writeFileSync_ops t (take k cs)"
  by (simp add: writeFileSync_ops_def take_map)

lemma staged_states:
  assumes "n \<le> length cs + 1"
  shows "run_ops fs (take n (writeFileSync_ops t cs @ [r])) = fs
       \<or> (\<exists>k. run_ops fs (take n (writeFileSync_ops t cs @ [r])) = writeFileSync fs t (concat (take k cs)))"
proof (cases n)
  case 0
  then show ?thesis by (simp add: run_ops_def)
next
  case (Suc k)
  have len: "length (writeFileSync_ops t cs) = length cs + 1" by (simp add: writeFileSync_ops_def)
  with assms Suc have "take n (writeFileSync_ops t cs @ [r]) = writeFileSync_ops t (take k cs)"
    using take_writeFileSync_ops[of k t cs] by simp
  then show ?thesis using writeFileSync_ops_run by metis
qed

lemma whole_run:
  "run_ops fs (writeFileSync_ops t cs @ [OpRename t f]) = renameSync (writeFileSync fs t (concat cs)) t f"
  using writeFileSync_ops_run[of fs t cs] by (simp add: run_ops_def)

lemma length_writeIpcFile_ops: "length (writeIpcFile_ops e dir chunks) = length chunks + 2"
  by (simp add: writeIpcFile_ops_def Let_def writeFileSync_ops_def)

text \<open>
  Claim C3, as the code has it. The staging file of \<^verbatim>\<open>writeIpcFile\<close> is the final path
  with \<^verbatim>\<open>.tmp\<close> appended, in the target directory itself. At every point before the
  rename, every file other than the staging file is what it was before the call, so
  nothing is visible under the final name; the rename is the one step that changes the
  final name, which then holds the complete payload, and the staging name is gone. All
  other files are untouched throughout. With the chunks of the serialised payload, the
  steps end in the state that \<^verbatim>\<open>writeIpcFile\<close> returns.
\<close>

theorem final_name_never_incomplete:
  "(\<forall>n p. n < length (writeIpcFile_ops e dir chunks) \<longrightarrow> p \<noteq> path_join dir (ipc_filename e) @ ''.tmp'' \<longrightarrow>
       readFileSync (run_ops fs (take n (writeIpcFile_ops e dir chunks))) p = readFileSync fs p)
   \<and> (\<forall>p. p \<noteq> path_join dir (ipc_filename e) @ ''.tmp'' \<longrightarrow> p \<noteq> path_join dir (ipc_filename e) \<longrightarrow>
       readFileSync (run_ops fs (writeIpcFile_ops e dir chunks)) p = readFileSync fs p)
   \<and> readFileSync (run_ops fs (writeIpcFile_ops e dir chunks)) (path_join dir (ipc_filename e)) = Some (concat chunks)
   \<and> readFileSync (run_ops fs (writeIpcFile_ops e dir chunks)) (path_join dir (ipc_filename e) @ ''.tmp'') = None
   \<and> (concat chunks = JSON_stringify data \<longrightarrow>
        run_ops fs (writeIpcFile_ops e dir chunks) = snd (writeIpcFile e dir data fs))"
proof -
  define f where "f = path_join dir (ipc_filename e)"
  define t where "t = f @ ''.tmp''"
  have ops: "writeIpcFile_ops e dir chunks = writeFileSync_ops t chunks @ [OpRename t f]"
    by (simp add: writeIpcFile_ops_def Let_def f_def t_def)
  have tf: "t \<noteq> f" by (simp add: t_def)
  have a: "readFileSync (run_ops fs (take n (writeIpcFile_ops e dir chunks))) p = readFileSync fs p"
    if "n < length (writeIpcFile_ops e dir chunks)" "p \<noteq> t" for n p
  proof -
    from that(1) have "n \<le> length chunks + 1" by (simp add: length_writeIpcFile_ops)
    from staged_states[OF this, of fs t "OpRename t f"] that(2) show ?thesis
      unfolding ops by (auto simp: readFileSync_def writeFileSync_def update_conv')
  qed
  have fin: "run_ops fs (writeIpcFile_ops e dir chunks) = renameSync (writeFileSync fs t (concat chunks)) t f"
    unfolding ops by (rule whole_run)
  have b: "readFileSync (run_ops fs (writeIpcFile_ops e dir chunks)) p = readFileSync fs p"
    if "p \<noteq> t" "p \<noteq> f" for p
    unfolding fin using that
    by (simp add: readFileSync_def writeFileSync_def renameSync_def update_conv' delete_conv')
  have c: "readFileSync (run_ops fs (writeIpcFile_ops e dir chunks)) f = Some (concat chunks)"
    unfolding fin by (simp add: readFileSync_def writeFileSync_def renameSync_def update_conv')
  have d: "readFileSync (run_ops fs (writeIpcFile_ops e dir chunks)) t = None"
    unfolding fin using tf
    by (simp add: readFileSync_def writeFileSync_def renameSync_def update_conv' delete_conv')
  have g: "run_ops fs (writeIpcFile_ops e dir chunks) = snd (writeIpcFile e dir data fs)"
    if "concat chunks = JSON_stringify data"
    unfolding fin using that by (simp add: writeIpcFile_def Let_def f_def t_def)
  from a b c d g show ?thesis unfolding f_def[symmetric] t_def[symmetric] by blast
qed

theorem final_name_never_incomplete_witness:
  "(1::nat) < length (writeIpcFile_ops example_env TASKS_DIR example_chunks)
   \<and> path_join TASKS_DIR (ipc_filename example_env) \<noteq> path_join TASKS_DIR (ipc_filename example_env) @ ''.tmp''
   \<and> readFileSync (run_ops [] (take 1 (writeIpcFile_ops example_env TASKS_DIR example_chunks)))
         (path_join TASKS_DIR (ipc_filename example_env))
       = readFileSync [] (path_join TASKS_DIR (ipc_filename example_env))
   \<and> readFileSync (run_ops [] (writeIpcFile_ops example_env TASKS_DIR example_chunks))
         (path_join TASKS_DIR (ipc_filename example_env)) = Some (JSON_stringify example_message)
   \<and> concat example_chunks = JSON_stringify example_message
   \<and> run_ops [] (writeIpcFile_ops example_env TASKS_DIR example_chunks)
       = snd (writeIpcFile example_env TASKS_DIR example_message [])"
proof -
  note t = final_name_never_incomplete[of example_env TASKS_DIR example_chunks "[]" example_message]
  have len: "(1::nat) < length (writeIpcFile_ops example_env TASKS_DIR example_chunks)"
    by (simp add: length_writeIpcFile_ops)
  have ne: "path_join TASKS_DIR (ipc_filename example_env) \<noteq> path_join TASKS_DIR (ipc_filename example_env) @ ''.tmp''"
    by simp
  have cc: "concat example_chunks = JSON_stringify example_message"
    by (simp add: example_chunks_def)
  note a = t[THEN conjunct1, THEN spec, THEN spec, THEN mp, OF len, THEN mp, OF ne]
  note c = t[THEN conjunct2, THEN conjunct2, THEN conjunct1, unfolded cc]
  note g = t[THEN conjunct2, THEN conjunct2, THEN conjunct2, THEN conjunct2, THEN mp, OF cc]
  show ?thesis by (intro conjI len ne a c cc g)
qed

text \<open>
  A listing of the tasks directory between the steps of one call: after the first
  chunk it shows the staging file, whose content does not parse as JSON; after the last
  chunk and before the rename it shows the staging file with the whole payload.
\<close>

theorem staging_file_is_listed_incomplete:
  "readdirSync (run_ops [] (take 2 (writeIpcFile_ops example_env TASKS_DIR example_chunks))) TASKS_DIR
     = [''17-abc123.json.tmp'']
   \<and> readFileSync (run_ops [] (take 2 (writeIpcFile_ops example_env TASKS_DIR example_chunks)))
         (path_join TASKS_DIR ''17-abc123.json.tmp'') = Some (take 12 (JSON_stringify example_message))
   \<and> \<not> JSON_parse_ok (take 12 (JSON_stringify example_message))
   \<and> JSON_parse_ok (JSON_stringify example_message)
   \<and> readdirSync (run_ops [] (take 3 (writeIpcFile_ops example_env TASKS_DIR example_chunks))) TASKS_DIR
     = [''17-abc123.json.tmp'']
   \<and> readFileSync (run_ops [] (take 3 (writeIpcFile_ops example_env TASKS_DIR example_chunks)))
         (path_join TASKS_DIR ''17-abc123.json.tmp'') = Some (JSON_stringify example_message)"
  by code_simp

end
